theory Spec2Isabelle
  imports Complex_Main "HOL-Library.Sublist"
begin

section \<open>Paths and strings\<close>

text \<open>
  Paths are POSIX paths, strings of bytes. Of Node's \<^verbatim>\<open>path\<close> module the scripts use
  \<^verbatim>\<open>join\<close>, \<^verbatim>\<open>basename\<close>, \<^verbatim>\<open>extname\<close> and \<^verbatim>\<open>relative\<close>.

  \<^verbatim>\<open>path.join(dir, item)\<close> is only ever called with a directory path and the name of
  one of its entries. The directory path is taken to be in the normal form that
  \<^verbatim>\<open>path.join\<close> itself produces (no \<^verbatim>\<open>.\<close> or \<^verbatim>\<open>..\<close> segment inside, no doubled slash):
  then the result is the two joined by one slash, and the name alone when the
  directory is the empty path or \<^verbatim>\<open>.\<close>.
\<close>

definition path_join :: "string \<Rightarrow> string \<Rightarrow> string" where
  "path_join dir item =
     (if dir = [] \<or> dir = ''.'' then item
      else if last dir = CHR ''/'' then dir @ item
      else dir @ ''/'' @ item)"

text \<open>
  \<^verbatim>\<open>path.basename(p)\<close>: trailing slashes are dropped, the result is what follows the
  last remaining slash.
\<close>

definition basename :: "string \<Rightarrow> string" where
  "basename p =
     rev (takeWhile (\<lambda>c. c \<noteq> CHR ''/'') (dropWhile (\<lambda>c. c = CHR ''/'') (rev p)))"

text \<open>
  \<^verbatim>\<open>path.extname(p)\<close>: the part of the base name from its last dot on. It is empty
  when the base name has no dot, when its only dot is its first character (a dotfile
  such as \<^verbatim>\<open>.DS_Store\<close> has no extension), and for \<^verbatim>\<open>..\<close>.
\<close>

definition extname :: "string \<Rightarrow> string" where
  "extname p =
     (let b = basename p in
      if CHR ''.'' \<notin> set b then []
      else
        let ext = CHR ''.'' # rev (takeWhile (\<lambda>c. c \<noteq> CHR ''.'') (rev b));
            startDot = length b - length ext
        in if startDot = 0 \<or> b = ''..'' then [] else ext)"

text \<open>
  \<^verbatim>\<open>String.prototype.toLowerCase\<close>: the letters \<open>A\<close> to \<open>Z\<close> are lowered, every other
  byte is left as it is.
\<close>

definition lower_char :: "char \<Rightarrow> char" where
  "lower_char c =
     (case map_of (zip ''ABCDEFGHIJKLMNOPQRSTUVWXYZ'' ''abcdefghijklmnopqrstuvwxyz'') c of
        Some l \<Rightarrow> l
      | None \<Rightarrow> c)"

definition toLowerCase :: "string \<Rightarrow> string" where
  "toLowerCase s = map lower_char s"

section \<open>Regular expressions\<close>

text \<open>
  The essential patterns are \<^verbatim>\<open>RegExp\<close> objects, used through \<^verbatim>\<open>pattern.test(fileName)\<close>
  only. The patterns of the configuration are built from literal characters, \<^verbatim>\<open>.\<close>
  (any character but a line terminator), \<^verbatim>\<open>^\<close> and \<^verbatim>\<open>$\<close> (the two ends of the input:
  no flag is set), grouping with alternatives, \<^verbatim>\<open>?\<close> and \<^verbatim>\<open>*\<close>.
\<close>

datatype rx =
    Chars string
  | AnyChar
  | Bol
  | Eol
  | Seq rx rx
  | Alt rx rx
  | Opt rx
  | Star rx

text \<open>
  \<open>star_iter f n s\<close>: the positions reachable from \<open>s\<close> by at most \<open>n\<close> rounds of
  \<open>f\<close>, each of which consumes at least one character (a round that matches the empty
  string ends the repetition, as in ECMAScript). With \<open>n\<close> the length of \<open>s\<close> no
  round is cut off.
\<close>

fun star_iter :: "(string \<Rightarrow> string list) \<Rightarrow> nat \<Rightarrow> string \<Rightarrow> string list" where
  "star_iter f 0 s = [s]"
| "star_iter f (Suc n) s =
     s # concat (map (star_iter f n) (filter (\<lambda>t. length t < length s) (f s)))"

text \<open>
  \<open>rx_step r w s\<close>: matching \<open>r\<close> in the input \<open>w\<close> at the position whose rest is
  \<open>s\<close> (a suffix of \<open>w\<close>), the rests after every possible match.
\<close>

primrec rx_step :: "rx \<Rightarrow> string \<Rightarrow> string \<Rightarrow> string list" where
  "rx_step (Chars l) w s = (if take (length l) s = l then [drop (length l) s] else [])"
| "rx_step AnyChar w s =
     (case s of [] \<Rightarrow> []
      | c # t \<Rightarrow> if c = CHR 0x0A \<or> c = CHR 0x0D then [] else [t])"
| "rx_step Bol w s = (if length s = length w then [s] else [])"
| "rx_step Eol w s = (if s = [] then [s] else [])"
| "rx_step (Seq a b) w s = concat (map (rx_step b w) (rx_step a w s))"
| "rx_step (Alt a b) w s = rx_step a w s @ rx_step b w s"
| "rx_step (Opt a) w s = rx_step a w s @ [s]"
| "rx_step (Star a) w s = star_iter (rx_step a w) (length s) s"

text \<open>\<^verbatim>\<open>pattern.test(w)\<close>: the pattern matches at some position of \<open>w\<close>.\<close>

definition test :: "rx \<Rightarrow> string \<Rightarrow> bool" where
  "test r w = list_ex (\<lambda>i. rx_step r w (drop i w) \<noteq> []) [0 ..< Suc (length w)]"

section \<open>Configuration\<close>

record cleanup_options =
  promptBeforeDeletion :: bool
  removeEmptyDirectories :: bool
  removeEmptyFrontend :: bool
  createBackups :: bool

record config =
  directories :: "(string \<times> string) list"
  essentialPatterns :: "rx list"
  essentialDirectories :: "string list"
  artifactExtensions :: "string list"
  accessThresholdDays :: real
  backupDir :: string
  backupRetentionDays :: real
  logFile :: string
  options :: cleanup_options

definition getDefaultConfig :: config where
  "getDefaultConfig =
     \<lparr> directories =
         [(''frontend'', ''src''), (''backend'', ''backend''),
          (''database'', ''database''), (''publicAssets'', ''public'')],
       essentialPatterns =
         [Seq Bol (Chars ''.env''),
          Seq (Chars ''config.'') (Seq (Alt (Chars ''js'') (Alt (Chars ''ts'') (Chars ''json''))) Eol),
          Seq (Chars ''package'') (Seq (Opt (Chars ''-lock'')) (Seq (Chars ''.json'') Eol)),
          Seq (Chars ''tsconfig'') (Seq (Star AnyChar) (Seq (Chars ''.json'') Eol)),
          Seq (Chars ''README.md'') Eol,
          Seq (Chars ''.gitignore'') Eol,
          Seq (Chars ''server.js'') Eol,
          Seq (Chars ''vite.config.ts'') Eol,
          Seq (Chars ''tailwind.config.js'') Eol,
          Seq (Chars ''postcss.config.js'') Eol,
          Seq (Chars ''restart.ps1'') Eol],
       essentialDirectories =
         [''node_modules'', ''src'', ''backend'', ''public'', ''controllers'', ''models'',
          ''routes'', ''config'', ''components'', ''contexts'', ''pages'', ''services'',
          ''hooks'', ''utils'', ''lib''],
       artifactExtensions =
         [''.log'', ''.tmp'', ''.temp'', ''.DS_Store'', ''.bak'', ''Thumbs.db''],
       accessThresholdDays = 30,
       backupDir = ''.file-backup'',
       backupRetentionDays = 14,
       logFile = ''cleanup-log.txt'',
       options =
         \<lparr> promptBeforeDeletion = True, removeEmptyDirectories = True,
           removeEmptyFrontend = True, createBackups = True \<rparr> \<rparr>"

section \<open>Classification\<close>

definition isEssentialFile :: "config \<Rightarrow> string \<Rightarrow> bool" where
  "isEssentialFile cfg filePath =
     (let fileName = basename filePath
      in list_ex (\<lambda>pattern. test pattern fileName) (essentialPatterns cfg))"

definition isEssentialDirectory :: "config \<Rightarrow> string \<Rightarrow> bool" where
  "isEssentialDirectory cfg dirPath =
     (let dirName = basename dirPath in dirName \<in> set (essentialDirectories cfg))"

definition isBuildArtifact :: "config \<Rightarrow> string \<Rightarrow> bool" where
  "isBuildArtifact cfg filePath =
     (let ext = toLowerCase (extname filePath) in ext \<in> set (artifactExtensions cfg))"

section \<open>The file system\<close>

text \<open>
  A directory tree as the scripts see it through \<^verbatim>\<open>fs\<close>. Times are milliseconds since
  the epoch. Each entry carries what decides whether a call on it throws:
  \<^item> \<open>NoEntry\<close>: nothing can be reached under the name (no such entry, or a dangling
    link); \<^verbatim>\<open>existsSync\<close> is false and \<^verbatim>\<open>statSync\<close> throws;
  \<^item> a file whose \<open>content\<close> is \<open>None\<close> cannot be read or copied; one that is not
    \<open>unlinkable\<close> makes \<^verbatim>\<open>unlinkSync\<close> throw;
  \<^item> a directory that is not \<open>listable\<close> makes \<^verbatim>\<open>readdirSync\<close> throw; one that is
    not \<open>removable\<close> makes \<^verbatim>\<open>rmdirSync\<close> throw even when it is empty;
  \<^item> \<open>Special\<close>: an entry that is neither a file nor a directory.
\<close>

record file_info =
  atime :: int
  content :: "string option"
  unlinkable :: bool

record dir_info =
  dir_atime :: int
  listable :: bool
  removable :: bool

datatype node =
    File file_info
  | Dir dir_info "(string \<times> node) list"
  | Special int
  | NoEntry

record stats =
  isDirectory :: bool
  isFile :: bool
  st_atime :: int

text \<open>The calls return \<open>None\<close> (or \<open>False\<close>) where the \<^verbatim>\<open>fs\<close> function throws.\<close>

definition existsSync :: "node \<Rightarrow> bool" where
  "existsSync n = (n \<noteq> NoEntry)"

definition statSync :: "node \<Rightarrow> stats option" where
  "statSync n =
     (case n of
        File f \<Rightarrow> Some \<lparr> isDirectory = False, isFile = True, st_atime = atime f \<rparr>
      | Dir d items \<Rightarrow> Some \<lparr> isDirectory = True, isFile = False, st_atime = dir_atime d \<rparr>
      | Special a \<Rightarrow> Some \<lparr> isDirectory = False, isFile = False, st_atime = a \<rparr>
      | NoEntry \<Rightarrow> None)"

definition readdirSync :: "node \<Rightarrow> string list option" where
  "readdirSync n =
     (case n of
        Dir d items \<Rightarrow> if listable d then Some (map fst items) else None
      | _ \<Rightarrow> None)"

text \<open>\<^verbatim>\<open>fs.unlinkSync\<close>: whether the entry is removed.\<close>

definition unlinkSync :: "node \<Rightarrow> bool" where
  "unlinkSync n =
     (case n of File f \<Rightarrow> unlinkable f | Special a \<Rightarrow> True | _ \<Rightarrow> False)"

text \<open>
  \<^verbatim>\<open>fs.rmdirSync(dirPath)\<close>, without the recursive option: whether the directory is
  removed. On a directory that has entries the call throws (ENOTEMPTY).
\<close>

definition rmdirSync :: "node \<Rightarrow> bool" where
  "rmdirSync n =
     (case n of Dir d items \<Rightarrow> items = [] \<and> removable d | _ \<Rightarrow> False)"

text \<open>\<^verbatim>\<open>fs.copyFileSync\<close> from the entry: whether the copy is made.\<close>

definition copyFileSync :: "node \<Rightarrow> bool" where
  "copyFileSync n = (case n of File f \<Rightarrow> content f \<noteq> None | _ \<Rightarrow> False)"

section \<open>What a run does\<close>

text \<open>
  The console lines of the cleanup script and its effects outside the scanned trees
  (the copy into the backup, the line appended to the deletion log), in order.
  Paths and reasons are the strings the script prints.
\<close>

datatype event =
    StartingCleanup bool
  | ScanningDirectory string
  | DirectoryDoesNotExist string
  | ErrorScanningDirectory string
  | SkippingEssentialFile string
  | WouldDeleteDirectory string string
  | WouldDeleteFile string string
  | AskDeleteDirectory string string
  | AskDeleteFile string string
  | KeepingDirectory string
  | KeepingFile string
  | DeletingFile string
  | DeletedFile string
  | BackupCreatedAt string
  | ErrorDeletingFile string
  | DeletedDirectory string
  | ErrorDeletingDirectory string
  | ErrorCheckingAccessTime string
  | ErrorCheckingEmpty string
  | ErrorBackingUp string
  | CopiedToBackup string string
  | DeletionLogged string string "string option"
  | WouldDeleteEmptyFrontend string
  | RemovedOldBackup string
  | ErrorProcessingBackup string
  | ErrorCleaningBackups
  | DryRunNotice
  | ReadlineClosed

text \<open>
  The process environment of one run: the clock (\<^verbatim>\<open>new Date()\<close>, taken as one
  instant for the run), the same instant as \<^verbatim>\<open>toISOString().split('T')[0]\<close> prints it,
  and \<^verbatim>\<open>process.cwd()\<close>.
\<close>

record env =
  now :: int
  today :: string
  cwd :: string

record run_options =
  dryRun :: bool

definition msPerDay :: real where
  "msPerDay = 1000 * 60 * 60 * 24"

definition isRecentlyAccessed :: "config \<Rightarrow> env \<Rightarrow> string \<Rightarrow> node \<Rightarrow> bool \<times> event list" where
  "isRecentlyAccessed cfg e filePath n =
     (case statSync n of
        Some st \<Rightarrow>
          (let lastAccessTime = st_atime st;
               currentTime = now e;
               daysDifference = real_of_int (currentTime - lastAccessTime) / msPerDay
           in (daysDifference < accessThresholdDays cfg, []))
      | None \<Rightarrow> (True, [ErrorCheckingAccessTime filePath]))"

definition isEmptyDir :: "string \<Rightarrow> node \<Rightarrow> bool \<times> event list" where
  "isEmptyDir dirPath n =
     (case readdirSync n of
        Some names \<Rightarrow> (length names = 0, [])
      | None \<Rightarrow> (False, [ErrorCheckingEmpty dirPath]))"

text \<open>
  \<^verbatim>\<open>path.relative(process.cwd(), filePath)\<close>, for a path below the working directory or
  relative to it.
\<close>

definition path_relative :: "string \<Rightarrow> string \<Rightarrow> string" where
  "path_relative base p =
     (if prefix (base @ ''/'') p then drop (length base + 1) p else p)"

text \<open>
  \<^verbatim>\<open>utils.backupFile\<close>. Creating the backup directories is taken to succeed; the copy
  fails when the file cannot be read.
\<close>

definition backupFile :: "config \<Rightarrow> env \<Rightarrow> string \<Rightarrow> node \<Rightarrow> string option \<times> event list" where
  "backupFile cfg e filePath n =
     (if \<not> createBackups (options cfg) then (None, [])
      else
        let backupDirPath = path_join (cwd e) (backupDir cfg);
            dateDirPath = path_join backupDirPath (today e);
            relativeFilePath = path_relative (cwd e) filePath;
            backupFilePath = path_join dateDirPath relativeFilePath
        in if copyFileSync n then (Some backupFilePath, [CopiedToBackup filePath backupFilePath])
           else (None, [ErrorBackingUp filePath]))"

text \<open>
  The deleting functions return what is left under the name (\<open>None\<close> once the entry
  is removed) and what was printed and done.
\<close>

definition deleteDirectory :: "string \<Rightarrow> string \<Rightarrow> node \<Rightarrow> node option \<times> event list" where
  "deleteDirectory dirPath reason n =
     (if rmdirSync n then (None, [DeletionLogged dirPath reason None, DeletedDirectory dirPath])
      else (Some n, [ErrorDeletingDirectory dirPath]))"

definition deleteFile :: "config \<Rightarrow> env \<Rightarrow> string \<Rightarrow> string \<Rightarrow> node \<Rightarrow> node option \<times> event list" where
  "deleteFile cfg e filePath reason n =
     (case backupFile cfg e filePath n of
        (backupPath, backupEvents) \<Rightarrow>
          if unlinkSync n then
            (None,
             [DeletingFile filePath] @ backupEvents @
             [DeletionLogged filePath reason backupPath, DeletedFile filePath] @
             (case backupPath of Some b \<Rightarrow> [BackupCreatedAt b] | None \<Rightarrow> []))
          else (Some n, [DeletingFile filePath] @ backupEvents @ [ErrorDeletingFile filePath]))"

text \<open>
  With \<open>promptBeforeDeletion\<close> the question is put and the function returns; the
  answer arrives later, in the callback (\<open>answerDirectoryDeletion\<close>,
  \<open>answerFileDeletion\<close>).
\<close>

definition handleDirectoryDeletion ::
  "config \<Rightarrow> run_options \<Rightarrow> string \<Rightarrow> string \<Rightarrow> node \<Rightarrow> node option \<times> event list" where
  "handleDirectoryDeletion cfg opts dirPath reason n =
     (if dryRun opts then (Some n, [WouldDeleteDirectory dirPath reason])
      else if promptBeforeDeletion (options cfg) then (Some n, [AskDeleteDirectory dirPath reason])
      else deleteDirectory dirPath reason n)"

definition answerDirectoryDeletion :: "string \<Rightarrow> string \<Rightarrow> string \<Rightarrow> node \<Rightarrow> node option \<times> event list" where
  "answerDirectoryDeletion answer dirPath reason n =
     (if toLowerCase answer = ''y'' then deleteDirectory dirPath reason n
      else (Some n, [KeepingDirectory dirPath]))"

definition handleFileDeletion ::
  "config \<Rightarrow> run_options \<Rightarrow> env \<Rightarrow> string \<Rightarrow> string \<Rightarrow> node \<Rightarrow> node option \<times> event list" where
  "handleFileDeletion cfg opts e filePath reason n =
     (if dryRun opts then (Some n, [WouldDeleteFile filePath reason])
      else if promptBeforeDeletion (options cfg) then (Some n, [AskDeleteFile filePath reason])
      else deleteFile cfg e filePath reason n)"

definition answerFileDeletion ::
  "config \<Rightarrow> env \<Rightarrow> string \<Rightarrow> string \<Rightarrow> string \<Rightarrow> node \<Rightarrow> node option \<times> event list" where
  "answerFileDeletion cfg e answer filePath reason n =
     (if toLowerCase answer = ''y'' then deleteFile cfg e filePath reason n
      else (Some n, [KeepingFile filePath]))"

text \<open>What a directory lists under a name after the entry was handled.\<close>

definition entry :: "string \<Rightarrow> node option \<Rightarrow> (string \<times> node) list" where
  "entry item left = (case left of Some n \<Rightarrow> [(item, n)] | None \<Rightarrow> [])"

text \<open>
  The two branches of the loop body of \<^verbatim>\<open>scanDirectory\<close>, for the entry at
  \<open>itemPath\<close>. For a file: the essential check, then the artifact check, then the
  access time. For a directory, after it has been scanned: the check for an empty
  directory; \<^verbatim>\<open>&&\<close> evaluates \<^verbatim>\<open>utils.isEmptyDir\<close> only when the two conditions
  before it hold.
\<close>

definition checkFile ::
  "config \<Rightarrow> run_options \<Rightarrow> env \<Rightarrow> string \<Rightarrow> node \<Rightarrow> node option \<times> event list" where
  "checkFile cfg opts e itemPath n =
     (if isEssentialFile cfg itemPath then (Some n, [SkippingEssentialFile itemPath])
      else if isBuildArtifact cfg itemPath
      then handleFileDeletion cfg opts e itemPath ''Build artifact'' n
      else
        case isRecentlyAccessed cfg e itemPath n of
          (recent, evs0) \<Rightarrow>
            if \<not> recent
            then
              (case handleFileDeletion cfg opts e itemPath ''Not recently accessed'' n of
                 (left, evs1) \<Rightarrow> (left, evs0 @ evs1))
            else (Some n, evs0))"

definition checkEmptyDirectory ::
  "config \<Rightarrow> run_options \<Rightarrow> string \<Rightarrow> node \<Rightarrow> node option \<times> event list" where
  "checkEmptyDirectory cfg opts itemPath n =
     (if removeEmptyDirectories (options cfg) \<and> \<not> isEssentialDirectory cfg itemPath
      then
        case isEmptyDir itemPath n of
          (isEmpty, evs0) \<Rightarrow>
            if isEmpty
            then
              (case handleDirectoryDeletion cfg opts itemPath ''Empty directory'' n of
                 (left, evs1) \<Rightarrow> (left, evs0 @ evs1))
            else (Some n, evs0)
      else (Some n, []))"

text \<open>
  \<^verbatim>\<open>scanDirectory\<close>. \<open>scanItems\<close> is its \<^verbatim>\<open>for\<close> loop over the listing; the third
  component of its result tells that the loop was left by an exception, which the
  \<^verbatim>\<open>catch\<close> of \<open>scanDirectory\<close> reports. Inside the loop only \<^verbatim>\<open>fs.statSync(itemPath)\<close>
  can throw: every function the loop calls catches its own errors. The entries that
  the loop did not reach are left as they are.
\<close>

fun scanDirectory :: "config \<Rightarrow> run_options \<Rightarrow> env \<Rightarrow> string \<Rightarrow> node \<Rightarrow> node \<times> event list"
and scanItems ::
  "config \<Rightarrow> run_options \<Rightarrow> env \<Rightarrow> string \<Rightarrow> (string \<times> node) list
     \<Rightarrow> (string \<times> node) list \<times> event list \<times> bool"
where
  "scanDirectory cfg opts e dirPath NoEntry = (NoEntry, [DirectoryDoesNotExist dirPath])"
| "scanDirectory cfg opts e dirPath (File f) = (File f, [ErrorScanningDirectory dirPath])"
| "scanDirectory cfg opts e dirPath (Special a) = (Special a, [ErrorScanningDirectory dirPath])"
| "scanDirectory cfg opts e dirPath (Dir d items) =
     (if \<not> listable d then (Dir d items, [ErrorScanningDirectory dirPath])
      else
        case scanItems cfg opts e dirPath items of
          (items', evs, thrown) \<Rightarrow>
            (Dir d items', evs @ (if thrown then [ErrorScanningDirectory dirPath] else [])))"
| "scanItems cfg opts e dirPath [] = ([], [], False)"
| "scanItems cfg opts e dirPath ((item, n) # rest) =
     (let itemPath = path_join dirPath item in
      case statSync n of
        None \<Rightarrow> ((item, n) # rest, [], True)
      | Some stats \<Rightarrow>
          if isDirectory stats then
            (case scanDirectory cfg opts e itemPath n of
               (n1, evs1) \<Rightarrow>
                 case checkEmptyDirectory cfg opts itemPath n1 of
                   (left, evs2) \<Rightarrow>
                     case scanItems cfg opts e dirPath rest of
                       (rest', evs3, thrown) \<Rightarrow>
                         (entry item left @ rest', evs1 @ evs2 @ evs3, thrown))
          else if isFile stats then
            (case checkFile cfg opts e itemPath n of
               (left, evs1) \<Rightarrow>
                 case scanItems cfg opts e dirPath rest of
                   (rest', evs2, thrown) \<Rightarrow> (entry item left @ rest', evs1 @ evs2, thrown))
          else
            (case scanItems cfg opts e dirPath rest of
               (rest', evs, thrown) \<Rightarrow> ((item, n) # rest', evs, thrown)))"

section \<open>Backups and the retention sweep\<close>

text \<open>
  What the backup directory lists: the name of each entry, and whether
  \<^verbatim>\<open>fs.rmdirSync(dateDirPath, { recursive: true })\<close> on it succeeds. An entry stands
  for the whole partition: what \<^verbatim>\<open>backupFile\<close> has put below it (the copies, in
  directories named as those of the project, \<^verbatim>\<open>src\<close>, \<^verbatim>\<open>backend\<close>, \<^verbatim>\<open>public\<close>) is not listed
  apart, and the recursive removal takes it all with the entry.
\<close>

record backup_entry =
  pname :: string
  rm_ok :: bool

datatype backup_root =
    NoBackupRoot
  | UnlistableBackupRoot
  | BackupRoot "backup_entry list"

text \<open>
  \<open>parseDate\<close> stands for \<^verbatim>\<open>new Date(dateDir).getTime()\<close>, with \<open>None\<close> for
  \<^verbatim>\<open>NaN\<close>. \<open>checkBackupDate\<close> is the function given to \<^verbatim>\<open>forEach\<close>, for one entry
  of the listing: it returns what is left of the entry and what was printed.
  \<open>sweepBackupDates\<close> is the \<^verbatim>\<open>forEach\<close> over the listing.
\<close>

definition checkBackupDate ::
  "(string \<Rightarrow> int option) \<Rightarrow> config \<Rightarrow> env \<Rightarrow> backup_entry \<Rightarrow> backup_entry list \<times> event list"
where
  "checkBackupDate parseDate cfg e dateDir =
     (case parseDate (pname dateDir) of
        None \<Rightarrow> ([dateDir], [])
      | Some backupDate \<Rightarrow>
          let daysDifference = real_of_int (now e - backupDate) / msPerDay in
          if daysDifference > backupRetentionDays cfg then
            if rm_ok dateDir then ([], [RemovedOldBackup (pname dateDir)])
            else ([dateDir], [ErrorProcessingBackup (pname dateDir)])
          else ([dateDir], []))"

fun sweepBackupDates ::
  "(string \<Rightarrow> int option) \<Rightarrow> config \<Rightarrow> env \<Rightarrow> backup_entry list \<Rightarrow> backup_entry list \<times> event list"
where
  "sweepBackupDates parseDate cfg e [] = ([], [])"
| "sweepBackupDates parseDate cfg e (dateDir # later) =
     (case checkBackupDate parseDate cfg e dateDir of
        (left, evs) \<Rightarrow>
          case sweepBackupDates parseDate cfg e later of
            (left', evs') \<Rightarrow> (left @ left', evs @ evs'))"

definition cleanupOldBackups ::
  "(string \<Rightarrow> int option) \<Rightarrow> config \<Rightarrow> env \<Rightarrow> backup_root \<Rightarrow> backup_root \<times> event list"
where
  "cleanupOldBackups parseDate cfg e b =
     (if \<not> createBackups (options cfg) then (b, [])
      else
        case b of
          NoBackupRoot \<Rightarrow> (b, [])
        | UnlistableBackupRoot \<Rightarrow> (b, [ErrorCleaningBackups])
        | BackupRoot backupDates \<Rightarrow>
            (case sweepBackupDates parseDate cfg e backupDates of
               (left, evs) \<Rightarrow> (BackupRoot left, evs)))"

text \<open>
  The date-only ISO form \<^verbatim>\<open>YYYY-MM-DD\<close>, which \<^verbatim>\<open>new Date\<close> reads as midnight UTC of
  that day: the names \<^verbatim>\<open>backupFile\<close> gives its partitions.
\<close>

definition digit :: "char \<Rightarrow> int option" where
  "digit c = map_of (zip ''0123456789'' [0, 1, 2, 3, 4, 5, 6, 7, 8, 9]) c"

fun digits :: "int \<Rightarrow> string \<Rightarrow> int option" where
  "digits acc [] = Some acc"
| "digits acc (c # cs) =
     (case digit c of None \<Rightarrow> None | Some d \<Rightarrow> digits (10 * acc + d) cs)"

definition daysInMonth :: "int \<Rightarrow> int \<Rightarrow> int" where
  "daysInMonth y m =
     (if m = 2 then (if y mod 4 = 0 \<and> (y mod 100 \<noteq> 0 \<or> y mod 400 = 0) then 29 else 28)
      else if m = 4 \<or> m = 6 \<or> m = 9 \<or> m = 11 then 30 else 31)"

text \<open>Days from 1970-01-01 to the given day of the proleptic Gregorian calendar.\<close>

definition daysFromCivil :: "int \<Rightarrow> int \<Rightarrow> int \<Rightarrow> int" where
  "daysFromCivil y m d =
     (let y' = (if m \<le> 2 then y - 1 else y);
          era = y' div 400;
          yoe = y' - era * 400;
          doy = (153 * (if m > 2 then m - 3 else m + 9) + 2) div 5 + d - 1;
          doe = yoe * 365 + yoe div 4 - yoe div 100 + doy
      in era * 146097 + doe - 719468)"

definition parseIsoDate :: "string \<Rightarrow> int option" where
  "parseIsoDate s =
     (if length s = 10 \<and> s ! 4 = CHR ''-'' \<and> s ! 7 = CHR ''-'' then
        case (digits 0 (take 4 s), digits 0 (take 2 (drop 5 s)), digits 0 (drop 8 s)) of
          (Some y, Some m, Some d) \<Rightarrow>
            if 1 \<le> m \<and> m \<le> 12 \<and> 1 \<le> d \<and> d \<le> daysInMonth y m
            then Some (daysFromCivil y m d * 86400000)
            else None
        | _ \<Rightarrow> None
      else None)"

section \<open>The cleanup run\<close>

text \<open>
  The part of the file system a run touches: what lies at each path the run names
  (the configured directories and \<^verbatim>\<open>frontend\<close>, relative to the working directory), and
  the backup directory. These are taken to be separate trees, and the deletion log to
  lie outside them, as under the default configuration.
\<close>

record world =
  tree :: "string \<Rightarrow> node"
  backups :: backup_root

fun scanRoots :: "config \<Rightarrow> run_options \<Rightarrow> env \<Rightarrow> string list \<Rightarrow> world \<Rightarrow> world \<times> event list" where
  "scanRoots cfg opts e [] w = (w, [])"
| "scanRoots cfg opts e (dir # dirs) w =
     (case scanDirectory cfg opts e dir (tree w dir) of
        (n, evs) \<Rightarrow>
          case scanRoots cfg opts e dirs (w\<lparr>tree := (tree w)(dir := n)\<rparr>) of
            (w', evs') \<Rightarrow> (w', ScanningDirectory dir # evs @ evs'))"

text \<open>
  \<^verbatim>\<open>backupFile\<close> creates the backup directory and today's partition before it copies:
  after a scan that reached a copy, the partition is there.
\<close>

definition reachedBackup :: "event list \<Rightarrow> bool" where
  "reachedBackup evs =
     list_ex (\<lambda>ev. case ev of CopiedToBackup src dst \<Rightarrow> True
                       | ErrorBackingUp src \<Rightarrow> True
                       | _ \<Rightarrow> False) evs"

definition withPartition :: "string \<Rightarrow> backup_root \<Rightarrow> backup_root" where
  "withPartition name b =
     (case b of
        NoBackupRoot \<Rightarrow> BackupRoot [\<lparr> pname = name, rm_ok = True \<rparr>]
      | UnlistableBackupRoot \<Rightarrow> UnlistableBackupRoot
      | BackupRoot es \<Rightarrow>
          if name \<in> set (map pname es) then BackupRoot es
          else BackupRoot (es @ [\<lparr> pname = name, rm_ok = True \<rparr>]))"

definition removeEmptyFrontendStep ::
  "config \<Rightarrow> run_options \<Rightarrow> world \<Rightarrow> world \<times> event list" where
  "removeEmptyFrontendStep cfg opts w =
     (if removeEmptyFrontend (options cfg) then
        let frontendDir = ''frontend''; n = tree w frontendDir in
        if existsSync n then
          case isEmptyDir frontendDir n of
            (isEmpty, evs) \<Rightarrow>
              if isEmpty then
                if dryRun opts then (w, evs @ [WouldDeleteEmptyFrontend frontendDir])
                else
                  case handleDirectoryDeletion cfg opts frontendDir ''Empty directory'' n of
                    (left, evs') \<Rightarrow>
                      (w\<lparr>tree := (tree w)(frontendDir := (case left of Some n' \<Rightarrow> n' | None \<Rightarrow> NoEntry))\<rparr>,
                       evs @ evs')
              else (w, evs)
        else (w, [])
      else (w, []))"

definition runCleanup ::
  "(string \<Rightarrow> int option) \<Rightarrow> config \<Rightarrow> run_options \<Rightarrow> env \<Rightarrow> world \<Rightarrow> world \<times> event list" where
  "runCleanup parseDate cfg opts e w =
     (case scanRoots cfg opts e (map snd (directories cfg)) w of
        (w1, evs1) \<Rightarrow>
          case removeEmptyFrontendStep cfg opts w1 of
            (w2, evs2) \<Rightarrow>
              let b = (if reachedBackup (evs1 @ evs2) then withPartition (today e) (backups w2)
                       else backups w2)
              in case cleanupOldBackups parseDate cfg e b of
                   (b', evs3) \<Rightarrow>
                     (w2\<lparr>backups := b'\<rparr>,
                      StartingCleanup (dryRun opts) # evs1 @ evs2 @ evs3 @
                      (if dryRun opts then [DryRunNotice, ReadlineClosed] else [])))"

section \<open>Loading the configuration\<close>

text \<open>\<^verbatim>\<open>fs.readFileSync(path, 'utf8')\<close>: \<open>None\<close> where it throws.\<close>

definition readFileSync :: "node \<Rightarrow> string option" where
  "readFileSync n = (case n of File f \<Rightarrow> content f | _ \<Rightarrow> None)"

text \<open>
  The cleanup script. \<open>parseConfig\<close> stands for \<^verbatim>\<open>JSON.parse\<close> followed by the conversion
  of the pattern strings with \<^verbatim>\<open>new RegExp\<close>; it is \<open>None\<close> where either throws. The
  node is what lies at \<^verbatim>\<open>cleanup-config.json\<close> beside the script.
\<close>

definition loadCleanupConfig :: "(string \<Rightarrow> config option) \<Rightarrow> node \<Rightarrow> config" where
  "loadCleanupConfig parseConfig configFile =
     (if existsSync configFile then
        case readFileSync configFile of
          None \<Rightarrow> getDefaultConfig
        | Some configData \<Rightarrow>
            (case parseConfig configData of
               None \<Rightarrow> getDefaultConfig
             | Some c \<Rightarrow> c)
      else getDefaultConfig)"

text \<open>
  The structure analyzer reads the same file; of the configuration it uses the
  directories only, and its built-in default has these two fields.
\<close>

record analyzer_config =
  analyzer_directories :: "(string \<times> string) list"
  analyzer_essentialDirectories :: "string list"

definition analyzerDefaultConfig :: analyzer_config where
  "analyzerDefaultConfig =
     \<lparr> analyzer_directories =
         [(''frontend'', ''src''), (''backend'', ''backend''),
          (''database'', ''database''), (''publicAssets'', ''public'')],
       analyzer_essentialDirectories = [''node_modules'', ''src'', ''backend'', ''public''] \<rparr>"

text \<open>\<open>Inl code\<close> is \<^verbatim>\<open>process.exit(code)\<close>; \<open>parseJSON\<close> is \<open>None\<close> where \<^verbatim>\<open>JSON.parse\<close> throws.\<close>

definition loadAnalyzerConfig :: "(string \<Rightarrow> analyzer_config option) \<Rightarrow> node \<Rightarrow> nat + analyzer_config" where
  "loadAnalyzerConfig parseJSON configFile =
     (if existsSync configFile then
        case readFileSync configFile of
          None \<Rightarrow> Inl 1
        | Some configData \<Rightarrow>
            (case parseJSON configData of
               None \<Rightarrow> Inl 1
             | Some c \<Rightarrow> Inr c)
      else Inr analyzerDefaultConfig)"

section \<open>The structure analyzer: duplicate detection\<close>

text \<open>
  Of the analyzer's state, the two parts the duplicate check reads and writes: the
  table from a digest to the first path seen with it, and the reported groups. The
  statistics, file types, naming issues, large and unused files are collected beside
  them and do not enter the check.
\<close>

record duplicate =
  hash :: string
  files :: "string list"

record analysis =
  fileHashes :: "string \<rightharpoonup> string"
  potentialDuplicates :: "duplicate list"

text \<open>A string that may be \<^verbatim>\<open>null\<close> or \<^verbatim>\<open>undefined\<close>, as an \<^verbatim>\<open>if\<close> condition.\<close>

definition truthy :: "string option \<Rightarrow> bool" where
  "truthy x = (case x of Some s \<Rightarrow> s \<noteq> [] | None \<Rightarrow> False)"

text \<open>\<open>sha256\<close> is the digest function (hexadecimal SHA-256 of the content).\<close>

definition calculateFileHash :: "(string \<Rightarrow> string) \<Rightarrow> node \<Rightarrow> string option" where
  "calculateFileHash sha256 n =
     (case readFileSync n of Some fileBuffer \<Rightarrow> Some (sha256 fileBuffer) | None \<Rightarrow> None)"

text \<open>The block ``Check for potential duplicates'' of the loop body.\<close>

definition checkDuplicate :: "string option \<Rightarrow> string \<Rightarrow> analysis \<Rightarrow> analysis" where
  "checkDuplicate fileHash itemRelPath a =
     (if truthy fileHash then
        let h = the fileHash in
        if truthy (fileHashes a h) then
          let firstPath = the (fileHashes a h) in
          if \<not> list_ex (\<lambda>dup. hash dup = h \<and> firstPath \<in> set (files dup) \<and>
                              itemRelPath \<in> set (files dup)) (potentialDuplicates a)
          then a\<lparr>potentialDuplicates :=
                   potentialDuplicates a @ [\<lparr> hash = h, files = [firstPath, itemRelPath] \<rparr>]\<rparr>
          else a
        else a\<lparr>fileHashes := (fileHashes a)(h \<mapsto> itemRelPath)\<rparr>
      else a)"

text \<open>
  \<^verbatim>\<open>analyzeDirectory\<close>, with \<open>analyzeItems\<close> its loop. An entry whose \<^verbatim>\<open>statSync\<close>
  throws is skipped by the \<^verbatim>\<open>catch\<close> inside the loop.
\<close>

fun analyzeDirectory :: "(string \<Rightarrow> string) \<Rightarrow> string \<Rightarrow> string \<Rightarrow> node \<Rightarrow> analysis \<Rightarrow> analysis"
and analyzeItems ::
  "(string \<Rightarrow> string) \<Rightarrow> string \<Rightarrow> string \<Rightarrow> (string \<times> node) list \<Rightarrow> analysis \<Rightarrow> analysis"
where
  "analyzeDirectory sha256 dirPath relativePath NoEntry a = a"
| "analyzeDirectory sha256 dirPath relativePath (File f) a = a"
| "analyzeDirectory sha256 dirPath relativePath (Special t) a = a"
| "analyzeDirectory sha256 dirPath relativePath (Dir d items) a =
     (if listable d then analyzeItems sha256 dirPath relativePath items a else a)"
| "analyzeItems sha256 dirPath relativePath [] a = a"
| "analyzeItems sha256 dirPath relativePath ((item, n) # rest) a =
     (let itemPath = path_join dirPath item;
          itemRelPath = path_join relativePath item
      in case statSync n of
           None \<Rightarrow> analyzeItems sha256 dirPath relativePath rest a
         | Some itemStats \<Rightarrow>
             if isDirectory itemStats then
               if item = ''node_modules'' then analyzeItems sha256 dirPath relativePath rest a
               else analyzeItems sha256 dirPath relativePath rest
                      (analyzeDirectory sha256 itemPath itemRelPath n a)
             else if isFile itemStats then
               analyzeItems sha256 dirPath relativePath rest
                 (checkDuplicate (calculateFileHash sha256 n) itemRelPath a)
             else analyzeItems sha256 dirPath relativePath rest a)"

text \<open>\<^verbatim>\<open>main\<close> of the analyzer, over the configured directories.\<close>

fun analyzeRoots :: "(string \<Rightarrow> string) \<Rightarrow> (string \<Rightarrow> node) \<Rightarrow> string list \<Rightarrow> analysis \<Rightarrow> analysis" where
  "analyzeRoots sha256 t [] a = a"
| "analyzeRoots sha256 t (dirPath # dirs) a =
     (if existsSync (t dirPath)
      then analyzeRoots sha256 t dirs (analyzeDirectory sha256 dirPath dirPath (t dirPath) a)
      else analyzeRoots sha256 t dirs a)"

definition emptyAnalysis :: analysis where
  "emptyAnalysis = \<lparr> fileHashes = Map.empty, potentialDuplicates = [] \<rparr>"

section \<open>Notions used to state the properties\<close>

text \<open>
  The path an event proposes for deletion, asks about or deletes: as a file, and as a
  directory.
\<close>

definition fileVictim :: "event \<Rightarrow> string option" where
  "fileVictim ev =
     (case ev of
        WouldDeleteFile p r \<Rightarrow> Some p
      | AskDeleteFile p r \<Rightarrow> Some p
      | DeletingFile p \<Rightarrow> Some p
      | DeletedFile p \<Rightarrow> Some p
      | _ \<Rightarrow> None)"

definition dirVictim :: "event \<Rightarrow> string option" where
  "dirVictim ev =
     (case ev of
        WouldDeleteDirectory p r \<Rightarrow> Some p
      | AskDeleteDirectory p r \<Rightarrow> Some p
      | DeletedDirectory p \<Rightarrow> Some p
      | WouldDeleteEmptyFrontend p \<Rightarrow> Some p
      | _ \<Rightarrow> None)"

definition spares :: "config \<Rightarrow> event list \<Rightarrow> bool" where
  "spares cfg evs =
     (\<forall>ev \<in> set evs.
        (\<forall>p. fileVictim ev = Some p \<longrightarrow> \<not> isEssentialFile cfg p) \<and>
        (\<forall>p. dirVictim ev = Some p \<longrightarrow> \<not> isEssentialDirectory cfg p))"

text \<open>
  The files and directories below a directory: the path of each, and whether it is a
  directory.
\<close>

fun entriesUnder :: "string \<Rightarrow> node \<Rightarrow> (string \<times> bool) list"
and entriesAmong :: "string \<Rightarrow> (string \<times> node) list \<Rightarrow> (string \<times> bool) list"
where
  "entriesUnder dirPath (Dir d items) = entriesAmong dirPath items"
| "entriesUnder dirPath (File f) = []"
| "entriesUnder dirPath (Special a) = []"
| "entriesUnder dirPath NoEntry = []"
| "entriesAmong dirPath [] = []"
| "entriesAmong dirPath ((item, n) # rest) =
     (case n of
        File f \<Rightarrow> [(path_join dirPath item, False)]
      | Dir d kids \<Rightarrow> (path_join dirPath item, True) # entriesUnder (path_join dirPath item) n
      | _ \<Rightarrow> []) @ entriesAmong dirPath rest"

text \<open>The entries that the events report as deleted.\<close>

definition gone :: "event list \<Rightarrow> (string \<times> bool) set" where
  "gone evs =
     {(p, False) | p. DeletedFile p \<in> set evs} \<union> {(p, True) | p. DeletedDirectory p \<in> set evs}"

text \<open>
  The files one analysis pass hashes, in the order of the visit: the relative path of
  each and its digest.
\<close>

fun hashedFiles :: "(string \<Rightarrow> string) \<Rightarrow> string \<Rightarrow> node \<Rightarrow> (string \<times> string) list"
and hashedItems :: "(string \<Rightarrow> string) \<Rightarrow> string \<Rightarrow> (string \<times> node) list \<Rightarrow> (string \<times> string) list"
where
  "hashedFiles sha256 relativePath (Dir d items) =
     (if listable d then hashedItems sha256 relativePath items else [])"
| "hashedFiles sha256 relativePath (File f) = []"
| "hashedFiles sha256 relativePath (Special a) = []"
| "hashedFiles sha256 relativePath NoEntry = []"
| "hashedItems sha256 relativePath [] = []"
| "hashedItems sha256 relativePath ((item, n) # rest) =
     (case n of
        File f \<Rightarrow>
          (case calculateFileHash sha256 n of
             Some h \<Rightarrow> if h \<noteq> [] then [(path_join relativePath item, h)] else []
           | None \<Rightarrow> [])
      | Dir d kids \<Rightarrow>
          if item = ''node_modules'' then []
          else hashedFiles sha256 (path_join relativePath item) n
      | _ \<Rightarrow> []) @ hashedItems sha256 relativePath rest"

text \<open>The same for the whole pass of the analyzer over the configured directories.\<close>

fun hashedRoots :: "(string \<Rightarrow> string) \<Rightarrow> (string \<Rightarrow> node) \<Rightarrow> string list \<Rightarrow> (string \<times> string) list" where
  "hashedRoots sha256 t [] = []"
| "hashedRoots sha256 t (dirPath # dirs) =
     (if existsSync (t dirPath) then hashedFiles sha256 dirPath (t dirPath) else []) @
     hashedRoots sha256 t dirs"

text \<open>The step of the duplicate check for one hashed file.\<close>

definition noteHashed :: "analysis \<Rightarrow> string \<times> string \<Rightarrow> analysis" where
  "noteHashed a ph = checkDuplicate (Some (snd ph)) (fst ph) a"

text \<open>
  For a list of hashed files: the first path of each digest, and the groups that such
  a table \<open>m\<close> yields, one for every file that is not the first of its digest, made
  of the first path and the path of the file.
\<close>

definition firstPaths :: "(string \<times> string) list \<Rightarrow> (string \<rightharpoonup> string)" where
  "firstPaths vs = map_of (map prod.swap vs)"

definition groupsBy :: "(string \<rightharpoonup> string) \<Rightarrow> (string \<times> string) list \<Rightarrow> duplicate list" where
  "groupsBy m vs =
     map (\<lambda>(p, h). \<lparr> hash = h, files = [the (m h), p] \<rparr>)
       (filter (\<lambda>(p, h). m h \<noteq> Some p) vs)"

subsection \<open>Sample inputs\<close>

text \<open>
  A readable directory, a readable file last accessed at the given time, and a run
  at midnight UTC of 2024-01-20 in \<open>/project\<close>.
\<close>

abbreviation sampleDir :: dir_info where
  "sampleDir \<equiv> \<lparr> dir_atime = 0, listable = True, removable = True \<rparr>"

abbreviation sampleFile :: "int \<Rightarrow> string \<Rightarrow> file_info" where
  "sampleFile t c \<equiv> \<lparr> atime = t, content = Some c, unlinkable = True \<rparr>"

abbreviation jan20 :: env where
  "jan20 \<equiv> \<lparr> now = 1705708800000, today = ''2024-01-20'', cwd = ''/project'' \<rparr>"

abbreviation samplePartition :: "string \<Rightarrow> backup_entry" where
  "samplePartition name \<equiv> \<lparr> pname = name, rm_ok = True \<rparr>"

text \<open>The default configuration with the question before each deletion switched off.\<close>

abbreviation noPromptConfig :: config where
  "noPromptConfig \<equiv>
     getDefaultConfig\<lparr>options := (options getDefaultConfig)\<lparr>promptBeforeDeletion := False\<rparr>\<rparr>"

section \<open>Paths of directory entries\<close>

lemma basename_after_slash:
  assumes "item \<noteq> []" and "CHR ''/'' \<notin> set item" and "pre = [] \<or> last pre = CHR ''/''"
  shows "basename (pre @ item) = item"
proof -
  let ?slash = "\<lambda>c. c = CHR ''/''"
  let ?other = "\<lambda>c. c \<noteq> CHR ''/''"
  have all: "\<forall>c \<in> set (rev item). ?other c"
    using assms(2) by auto
  have "\<not> ?slash (hd (rev item))"
    using assms(1,2) by (metis hd_in_set rev_is_Nil_conv set_rev)
  then have drop: "dropWhile ?slash (rev item @ ys) = rev item @ ys" for ys
    using assms(1) by (cases "rev item") auto
  have stop: "rev pre = [] \<or> \<not> ?other (hd (rev pre))"
    using assms(3) by (cases "pre = []") (auto simp: hd_rev)
  have take: "takeWhile ?other (rev item @ rev pre) = rev item"
  proof (cases "rev pre")
    case Nil
    then show ?thesis using all by simp
  next
    case (Cons c cs)
    with stop have "c = CHR ''/''" by simp
    with Cons all show ?thesis by (simp add: takeWhile_tail)
  qed
  have "basename (pre @ item) = rev (takeWhile ?other (dropWhile ?slash (rev item @ rev pre)))"
    by (simp add: basename_def)
  also have "\<dots> = rev (takeWhile ?other (rev item @ rev pre))"
    by (simp only: drop)
  also have "\<dots> = item"
    by (simp only: take rev_rev_ident)
  finally show ?thesis .
qed

lemma path_join_shape:
  "\<exists>pre. path_join dir item = pre @ item \<and> (pre = [] \<or> last pre = CHR ''/'')"
proof (cases "dir = [] \<or> dir = ''.''")
  case True
  then have "path_join dir item = [] @ item" by (auto simp: path_join_def)
  then show ?thesis by blast
next
  case False
  show ?thesis
  proof (cases "last dir = CHR ''/''")
    case True
    with False have "path_join dir item = dir @ item" by (simp add: path_join_def)
    with True show ?thesis by blast
  next
    case slash: False
    with False have "path_join dir item = (dir @ ''/'') @ item" by (simp add: path_join_def)
    moreover have "last (dir @ ''/'') = CHR ''/''" by simp
    ultimately show ?thesis by blast
  qed
qed

lemma basename_path_join:
  assumes "item \<noteq> []" and "CHR ''/'' \<notin> set item"
  shows "basename (path_join dir item) = item"
proof -
  from path_join_shape[of dir item] obtain pre
    where "path_join dir item = pre @ item" "pre = [] \<or> last pre = CHR ''/''" by blast
  then show ?thesis using basename_after_slash[OF assms] by simp
qed

lemma extname_path_join:
  assumes "item \<noteq> []" and "CHR ''/'' \<notin> set item"
  shows "extname (path_join dir item) = extname item"
  using basename_path_join[OF assms, of dir] basename_after_slash[OF assms, of "[]"]
  by (simp add: extname_def)

lemma extname_debug_log: "extname (path_join dir ''debug.log'') = ''.log''"
  by (simp add: extname_path_join) (simp add: extname_def basename_def)

lemma toLowerCase_log: "toLowerCase ''.log'' = ''.log''"
  by (simp add: toLowerCase_def lower_char_def)

section \<open>The artifact check comes before the access time\<close>

text \<open>
  Claim C4. With \<open>accessThresholdDays = 30\<close> and \<open>.log\<close> among the artifact
  extensions, a file \<open>debug.log\<close> that matches no essential pattern and was last
  accessed 40 days ago is not recently accessed, and yet the loop of \<open>scanDirectory\<close>
  proposes it with the reason \<open>Build artifact\<close>, and with no other: the artifact check
  is made first. Stated for the file at the head of any listing, in any directory.
\<close>

theorem debug_log_is_build_artifact:
  assumes "accessThresholdDays cfg = 30"
    and "''.log'' \<in> set (artifactExtensions cfg)"
    and "\<not> isEssentialFile cfg (path_join dirPath ''debug.log'')"
    and "real_of_int (now e - atime f) / msPerDay = 40"
  shows "\<not> fst (isRecentlyAccessed cfg e (path_join dirPath ''debug.log'') (File f)) \<and>
         scanItems cfg \<lparr>dryRun = True\<rparr> e dirPath ((''debug.log'', File f) # rest) =
           (case scanItems cfg \<lparr>dryRun = True\<rparr> e dirPath rest of
              (rest', evs, thrown) \<Rightarrow>
                ((''debug.log'', File f) # rest',
                 WouldDeleteFile (path_join dirPath ''debug.log'') ''Build artifact'' # evs,
                 thrown))"
proof -
  have art: "isBuildArtifact cfg (path_join dirPath ''debug.log'')"
    using assms(2) by (simp add: isBuildArtifact_def extname_debug_log toLowerCase_log)
  have stale: "\<not> fst (isRecentlyAccessed cfg e (path_join dirPath ''debug.log'') (File f))"
    using assms(1,4) by (simp add: isRecentlyAccessed_def statSync_def Let_def)
  have "checkFile cfg \<lparr>dryRun = True\<rparr> e (path_join dirPath ''debug.log'') (File f) =
          (Some (File f), [WouldDeleteFile (path_join dirPath ''debug.log'') ''Build artifact''])"
    using art assms(3) by (simp add: checkFile_def handleFileDeletion_def)
  then have "scanItems cfg \<lparr>dryRun = True\<rparr> e dirPath ((''debug.log'', File f) # rest) =
           (case scanItems cfg \<lparr>dryRun = True\<rparr> e dirPath rest of
              (rest', evs, thrown) \<Rightarrow>
                ((''debug.log'', File f) # rest',
                 WouldDeleteFile (path_join dirPath ''debug.log'') ''Build artifact'' # evs,
                 thrown))"
    by (simp add: statSync_def entry_def Let_def split: prod.splits)
  with stale show ?thesis by simp
qed

text \<open>The scenario under the default configuration, in the directory \<open>src\<close>.\<close>

theorem debug_log_is_build_artifact_witness:
  "accessThresholdDays getDefaultConfig = 30 \<and>
   ''.log'' \<in> set (artifactExtensions getDefaultConfig) \<and>
   \<not> isEssentialFile getDefaultConfig (path_join ''src'' ''debug.log'') \<and>
   real_of_int (now \<lparr> now = 3456000000, today = ''1970-02-10'', cwd = ''/project'' \<rparr>
                - atime (sampleFile 0 ''trace'')) / msPerDay = 40 \<and>
   scanItems getDefaultConfig \<lparr>dryRun = True\<rparr>
     \<lparr> now = 3456000000, today = ''1970-02-10'', cwd = ''/project'' \<rparr> ''src''
     [(''debug.log'', File (sampleFile 0 ''trace''))] =
   ([(''debug.log'', File (sampleFile 0 ''trace''))],
    [WouldDeleteFile ''src/debug.log'' ''Build artifact''], False)"
proof -
  have h1: "accessThresholdDays getDefaultConfig = 30"
    and h2: "''.log'' \<in> set (artifactExtensions getDefaultConfig)"
    by (simp_all add: getDefaultConfig_def)
  have h3: "\<not> isEssentialFile getDefaultConfig (path_join ''src'' ''debug.log'')"
    by (simp add: isEssentialFile_def getDefaultConfig_def basename_def path_join_def test_def)
  have h4: "real_of_int (now \<lparr> now = 3456000000, today = ''1970-02-10'', cwd = ''/project'' \<rparr>
                - atime (sampleFile 0 ''trace'')) / msPerDay = 40"
    by (simp add: msPerDay_def)
  have pj: "path_join ''src'' ''debug.log'' = ''src/debug.log''"
    by (simp add: path_join_def)
  from debug_log_is_build_artifact[OF h1 h2 h3 h4, of "[]"]
  have "scanItems getDefaultConfig \<lparr>dryRun = True\<rparr>
     \<lparr> now = 3456000000, today = ''1970-02-10'', cwd = ''/project'' \<rparr> ''src''
     [(''debug.log'', File (sampleFile 0 ''trace''))] =
   ([(''debug.log'', File (sampleFile 0 ''trace''))],
    [WouldDeleteFile ''src/debug.log'' ''Build artifact''], False)"
    unfolding pj by simp
  with h1 h2 h3 h4 show ?thesis by blast
qed


section \<open>Staleness\<close>

text \<open>
  Claim C5, as amended. For a file whose metadata can be read and that is neither
  essential nor an artifact, the loop of \<open>scanDirectory\<close> hands the file to
  \<open>handleFileDeletion\<close> with the reason \<open>Not recently accessed\<close> if and only if its
  age in days, \<open>(now - atime) / msPerDay\<close>, is at least \<open>accessThresholdDays\<close>:
  the file counts as recently accessed only while the age is strictly below the
  threshold. A file whose age equals the threshold is proposed.
\<close>

theorem stale_from_threshold_on:
  assumes "\<not> isEssentialFile cfg (path_join dirPath item)"
    and "\<not> isBuildArtifact cfg (path_join dirPath item)"
  shows "scanItems cfg opts e dirPath ((item, File f) # rest) =
           (case (if accessThresholdDays cfg \<le> real_of_int (now e - atime f) / msPerDay
                  then handleFileDeletion cfg opts e (path_join dirPath item)
                         ''Not recently accessed'' (File f)
                  else (Some (File f), [])) of
              (left, evs1) \<Rightarrow>
                case scanItems cfg opts e dirPath rest of
                  (rest', evs2, thrown) \<Rightarrow> (entry item left @ rest', evs1 @ evs2, thrown))"
proof -
  have "isRecentlyAccessed cfg e (path_join dirPath item) (File f) =
          (real_of_int (now e - atime f) / msPerDay < accessThresholdDays cfg, [])"
    by (simp add: isRecentlyAccessed_def statSync_def Let_def)
  then have "checkFile cfg opts e (path_join dirPath item) (File f) =
          (if accessThresholdDays cfg \<le> real_of_int (now e - atime f) / msPerDay
           then handleFileDeletion cfg opts e (path_join dirPath item)
                  ''Not recently accessed'' (File f)
           else (Some (File f), []))"
    using assms by (auto simp: checkFile_def split: prod.splits)
  then show ?thesis
    by (simp add: statSync_def Let_def)
qed

text \<open>A file of 31 days under the default threshold of 30 days, in a dry run.\<close>

theorem stale_from_threshold_on_witness:
  "\<not> isEssentialFile getDefaultConfig (path_join ''src'' ''notes.txt'') \<and>
   \<not> isBuildArtifact getDefaultConfig (path_join ''src'' ''notes.txt'') \<and>
   scanItems getDefaultConfig \<lparr>dryRun = True\<rparr>
     \<lparr> now = 2678400000, today = ''1970-02-01'', cwd = ''/project'' \<rparr> ''src''
     [(''notes.txt'', File (sampleFile 0 ''memo''))] =
   ([(''notes.txt'', File (sampleFile 0 ''memo''))],
    [WouldDeleteFile ''src/notes.txt'' ''Not recently accessed''], False)"
proof -
  have pj: "path_join ''src'' ''notes.txt'' = ''src/notes.txt''"
    by (simp add: path_join_def)
  have h1: "\<not> isEssentialFile getDefaultConfig (path_join ''src'' ''notes.txt'')"
    unfolding pj
    by (simp add: isEssentialFile_def getDefaultConfig_def basename_def test_def)
  have h2: "\<not> isBuildArtifact getDefaultConfig (path_join ''src'' ''notes.txt'')"
    unfolding pj
    by (simp add: isBuildArtifact_def getDefaultConfig_def basename_def extname_def
        toLowerCase_def lower_char_def)
  have thr: "accessThresholdDays getDefaultConfig = 30"
    by (simp add: getDefaultConfig_def)
  from stale_from_threshold_on[OF h1 h2, of "\<lparr>dryRun = True\<rparr>"
      "\<lparr> now = 2678400000, today = ''1970-02-01'', cwd = ''/project'' \<rparr>"
      "(sampleFile 0 ''memo'')" "[]"]
  have "scanItems getDefaultConfig \<lparr>dryRun = True\<rparr>
     \<lparr> now = 2678400000, today = ''1970-02-01'', cwd = ''/project'' \<rparr> ''src''
     [(''notes.txt'', File (sampleFile 0 ''memo''))] =
   ([(''notes.txt'', File (sampleFile 0 ''memo''))],
    [WouldDeleteFile ''src/notes.txt'' ''Not recently accessed''], False)"
    unfolding pj thr by (simp add: msPerDay_def handleFileDeletion_def entry_def)
  with h1 h2 show ?thesis by blast
qed

text \<open>
  The claim as first stated, with a strict comparison, fails at the boundary: a file
  whose age is exactly the threshold of 30 days is proposed for deletion.
\<close>

theorem exactly_threshold_old_is_proposed:
  "real_of_int (2592000000 - 0) / msPerDay = accessThresholdDays getDefaultConfig \<and>
   scanDirectory getDefaultConfig \<lparr>dryRun = True\<rparr>
     \<lparr> now = 2592000000, today = ''1970-01-31'', cwd = ''/project'' \<rparr> ''src''
     (Dir sampleDir
        [(''notes.txt'', File (sampleFile 0 ''memo''))]) =
   (Dir sampleDir
      [(''notes.txt'', File (sampleFile 0 ''memo''))],
    [WouldDeleteFile ''src/notes.txt'' ''Not recently accessed''])"
proof -
  have pj: "path_join ''src'' ''notes.txt'' = ''src/notes.txt''"
    by (simp add: path_join_def)
  have h1: "\<not> isEssentialFile getDefaultConfig ''src/notes.txt''"
    by (simp add: isEssentialFile_def getDefaultConfig_def basename_def test_def)
  have h2: "\<not> isBuildArtifact getDefaultConfig ''src/notes.txt''"
    by (simp add: isBuildArtifact_def getDefaultConfig_def basename_def extname_def
        toLowerCase_def lower_char_def)
  have thr: "accessThresholdDays getDefaultConfig = 30"
    by (simp add: getDefaultConfig_def)
  have "checkFile getDefaultConfig \<lparr>dryRun = True\<rparr>
          \<lparr> now = 2592000000, today = ''1970-01-31'', cwd = ''/project'' \<rparr> ''src/notes.txt''
          (File (sampleFile 0 ''memo'')) =
        (Some (File (sampleFile 0 ''memo'')),
         [WouldDeleteFile ''src/notes.txt'' ''Not recently accessed''])"
    using h1 h2
    by (simp add: checkFile_def isRecentlyAccessed_def statSync_def thr msPerDay_def
        handleFileDeletion_def)
  then show ?thesis
    by (simp add: pj thr msPerDay_def statSync_def entry_def)
qed

section \<open>Artifact extensions\<close>

text \<open>
  Claim C7. \<open>isBuildArtifact\<close> lowers the case of the file's extension and looks the
  result up in the configured list as it is written. Under the default configuration
  \<open>trace.LOG\<close> is an artifact, but no file matches the entries \<open>.DS_Store\<close> and
  \<open>Thumbs.db\<close>: not \<open>cache.DS_Store\<close>, whose extension is the entry itself, nor the
  files \<open>.DS_Store\<close> (a dotfile has no extension) and \<open>Thumbs.db\<close> (its extension is
  \<open>.db\<close>).
\<close>

theorem uppercase_artifact_entries_never_match:
  "isBuildArtifact getDefaultConfig ''src/trace.LOG'' \<and>
   \<not> isBuildArtifact getDefaultConfig ''src/cache.DS_Store'' \<and>
   \<not> isBuildArtifact getDefaultConfig ''src/.DS_Store'' \<and>
   \<not> isBuildArtifact getDefaultConfig ''src/Thumbs.db'' \<and>
   \<not> isBuildArtifact getDefaultConfig ''src/thumbs.db''"
  by (simp add: isBuildArtifact_def getDefaultConfig_def basename_def extname_def
      toLowerCase_def lower_char_def)

text \<open>
  In general only the entries that are written in lower case can match.
\<close>

lemma lower_char_idem: "lower_char (lower_char c) = lower_char c"
  by (auto simp: lower_char_def split: option.splits if_splits)

lemma toLowerCase_idem: "toLowerCase (toLowerCase s) = toLowerCase s"
  by (simp add: toLowerCase_def lower_char_idem)

lemma isBuildArtifact_lowercase_entries:
  "isBuildArtifact cfg p \<longleftrightarrow>
     toLowerCase (extname p) \<in> set (filter (\<lambda>x. toLowerCase x = x) (artifactExtensions cfg))"
  by (auto simp: isBuildArtifact_def toLowerCase_idem)

section \<open>What a traversal proposes and what it leaves\<close>

lemma spares_Nil [simp]: "spares cfg []"
  by (simp add: spares_def)

lemma spares_append [simp]: "spares cfg (xs @ ys) \<longleftrightarrow> spares cfg xs \<and> spares cfg ys"
  by (auto simp: spares_def)

lemma spares_Cons_neutral:
  "fileVictim ev = None \<Longrightarrow> dirVictim ev = None \<Longrightarrow> spares cfg (ev # evs) = spares cfg evs"
  by (simp add: spares_def)

lemma spares_handleFileDeletion:
  "handleFileDeletion cfg opts e p r n = (left, evs) \<Longrightarrow> \<not> isEssentialFile cfg p \<Longrightarrow> spares cfg evs"
  by (auto simp: spares_def handleFileDeletion_def deleteFile_def backupFile_def fileVictim_def
      dirVictim_def Let_def split: prod.splits option.splits if_splits)

lemma spares_handleDirectoryDeletion:
  "handleDirectoryDeletion cfg opts p r n = (left, evs) \<Longrightarrow> \<not> isEssentialDirectory cfg p
     \<Longrightarrow> spares cfg evs"
  by (auto simp: spares_def handleDirectoryDeletion_def deleteDirectory_def fileVictim_def
      dirVictim_def split: if_splits)

lemma spares_isEmptyDir: "isEmptyDir p n = (b, evs) \<Longrightarrow> spares cfg evs"
  by (auto simp: spares_def isEmptyDir_def fileVictim_def dirVictim_def split: option.splits)

lemma spares_isRecentlyAccessed: "isRecentlyAccessed cfg e p n = (b, evs) \<Longrightarrow> spares cfg evs"
  by (auto simp: spares_def isRecentlyAccessed_def fileVictim_def dirVictim_def Let_def
      split: option.splits)

lemma spares_single:
  "spares cfg [ErrorScanningDirectory p]" "spares cfg [DirectoryDoesNotExist p]"
  "spares cfg [SkippingEssentialFile p]"
  by (simp_all add: spares_def fileVictim_def dirVictim_def)

lemma spares_checkFile: "checkFile cfg opts e p n = (left, evs) \<Longrightarrow> spares cfg evs"
  by (auto simp: checkFile_def spares_single split: prod.splits if_splits
      dest: spares_handleFileDeletion spares_isRecentlyAccessed)

lemma spares_checkEmptyDirectory:
  "checkEmptyDirectory cfg opts p n = (left, evs) \<Longrightarrow> spares cfg evs"
  by (auto simp: checkEmptyDirectory_def split: prod.splits if_splits
      dest: spares_handleDirectoryDeletion spares_isEmptyDir)

lemma gone_Nil [simp]: "gone [] = {}"
  by (simp add: gone_def)

lemma gone_append [simp]: "gone (xs @ ys) = gone xs \<union> gone ys"
  by (auto simp: gone_def)

text \<open>What is left of a file or of a directory after the check.\<close>

lemma checkFile_left:
  "checkFile cfg opts e p n = (left, evs) \<Longrightarrow> left = Some n \<or> (left = None \<and> DeletedFile p \<in> set evs)"
  by (auto simp: checkFile_def handleFileDeletion_def deleteFile_def
      split: prod.splits if_splits option.splits)

lemma checkEmptyDirectory_left:
  "checkEmptyDirectory cfg opts p n = (left, evs) \<Longrightarrow>
     left = Some n \<or> (left = None \<and> entriesUnder p n = [] \<and> DeletedDirectory p \<in> set evs)"
  by (auto simp: checkEmptyDirectory_def handleDirectoryDeletion_def deleteDirectory_def
      rmdirSync_def split: prod.splits if_splits node.splits)

lemma entriesAmong_append:
  "entriesAmong dirPath (xs @ ys) = entriesAmong dirPath xs @ entriesAmong dirPath ys"
  by (induction xs) (auto split: node.splits)

text \<open>
  The invariant of the traversal: the events spare the essential paths, and an entry
  that is no longer there was reported deleted.
\<close>

lemma scan_invariant:
  "spares cfg (snd (scanDirectory cfg opts e dirPath n)) \<and>
   set (entriesUnder dirPath n) \<subseteq>
     set (entriesUnder dirPath (fst (scanDirectory cfg opts e dirPath n))) \<union>
     gone (snd (scanDirectory cfg opts e dirPath n))"
  "spares cfg (fst (snd (scanItems cfg opts e dirPath items))) \<and>
   set (entriesAmong dirPath items) \<subseteq>
     set (entriesAmong dirPath (fst (scanItems cfg opts e dirPath items))) \<union>
     gone (fst (snd (scanItems cfg opts e dirPath items)))"
proof (induction cfg opts e dirPath n and cfg opts e dirPath items
    rule: scanDirectory_scanItems.induct)
  case (4 cfg opts e dirPath d items)
  show ?case
  proof (cases "listable d")
    case False
    then show ?thesis by (simp add: spares_single)
  next
    case True
    obtain items' evs thrown where s: "scanItems cfg opts e dirPath items = (items', evs, thrown)"
      by (cases "scanItems cfg opts e dirPath items") auto
    from "4.IH" True s have "spares cfg evs"
      and "set (entriesAmong dirPath items) \<subseteq> set (entriesAmong dirPath items') \<union> gone evs"
      by auto
    then show ?thesis using True s by (auto simp: spares_single)
  qed
next
  case (6 cfg opts e dirPath item n rest)
  let ?p = "path_join dirPath item"
  show ?case
  proof (cases "statSync n")
    case None
    then show ?thesis by simp
  next
    case (Some st)
    note IH = "6.IH"[OF refl Some]
    obtain rest' evsr thrown where sr: "scanItems cfg opts e dirPath rest = (rest', evsr, thrown)"
      by (cases "scanItems cfg opts e dirPath rest") auto
    show ?thesis
    proof (cases "isDirectory st")
      case True
      then obtain d kids where n: "n = Dir d kids"
        using Some by (cases n) (auto simp: statSync_def)
      obtain n1 evs1 where s1: "scanDirectory cfg opts e ?p n = (n1, evs1)"
        by (cases "scanDirectory cfg opts e ?p n")
      obtain left evs2 where s2: "checkEmptyDirectory cfg opts ?p n1 = (left, evs2)"
        by (cases "checkEmptyDirectory cfg opts ?p n1")
      have n1: "\<exists>d' kids'. n1 = Dir d' kids'"
        using s1 n by (auto split: if_splits prod.splits)
      have a1: "spares cfg evs1"
        and b1: "set (entriesUnder ?p n) \<subseteq> set (entriesUnder ?p n1) \<union> gone evs1"
        using IH(1)[OF True] s1 by auto
      have a2: "spares cfg evs2" using s2 by (rule spares_checkEmptyDirectory)
      have ar: "spares cfg evsr"
        and br: "set (entriesAmong dirPath rest) \<subseteq> set (entriesAmong dirPath rest') \<union> gone evsr"
        using IH(2)[OF True s1[symmetric] s2[symmetric]] sr by auto
      have res: "scanItems cfg opts e dirPath ((item, n) # rest) =
                   (entry item left @ rest', evs1 @ evs2 @ evsr, thrown)"
        using Some True s1 s2 sr by (simp add: Let_def)
      have b2: "insert (?p, True) (set (entriesUnder ?p n1)) \<subseteq>
                  set (entriesAmong dirPath (entry item left)) \<union> gone evs2"
        using checkEmptyDirectory_left[OF s2] n1
        by (auto simp: entry_def gone_def)
      have "set (entriesAmong dirPath ((item, n) # rest)) \<subseteq>
              set (entriesAmong dirPath (entry item left @ rest')) \<union> gone (evs1 @ evs2 @ evsr)"
        using b1 b2 br n by (auto simp: entriesAmong_append)
      with a1 a2 ar res show ?thesis by simp
    next
      case False
      note nd = this
      show ?thesis
      proof (cases "isFile st")
        case True
        then obtain f where n: "n = File f"
          using Some by (cases n) (auto simp: statSync_def)
        obtain left evs1 where s1: "checkFile cfg opts e ?p n = (left, evs1)"
          by (cases "checkFile cfg opts e ?p n")
        have a1: "spares cfg evs1" using s1 by (rule spares_checkFile)
        have ar: "spares cfg evsr"
          and br: "set (entriesAmong dirPath rest) \<subseteq> set (entriesAmong dirPath rest') \<union> gone evsr"
          using IH(3)[OF nd True s1[symmetric]] sr by auto
        have res: "scanItems cfg opts e dirPath ((item, n) # rest) =
                     (entry item left @ rest', evs1 @ evsr, thrown)"
          using Some nd True s1 sr by (simp add: Let_def)
        have b1: "(?p, False) \<in> set (entriesAmong dirPath (entry item left)) \<union> gone evs1"
          using checkFile_left[OF s1] n by (auto simp: entry_def gone_def)
        have "set (entriesAmong dirPath ((item, n) # rest)) \<subseteq>
                set (entriesAmong dirPath (entry item left @ rest')) \<union> gone (evs1 @ evsr)"
          using b1 br n by (auto simp: entriesAmong_append)
        with a1 ar res show ?thesis by simp
      next
        case False
        then have n: "entriesAmong dirPath [(item, n)] = []"
          using Some nd by (cases n) (auto simp: statSync_def)
        have ar: "spares cfg evsr"
          and br: "set (entriesAmong dirPath rest) \<subseteq> set (entriesAmong dirPath rest') \<union> gone evsr"
          using IH(4)[OF nd False] sr by auto
        have res: "scanItems cfg opts e dirPath ((item, n) # rest) = ((item, n) # rest', evsr, thrown)"
          using Some nd False sr by (simp add: Let_def)
        have "set (entriesAmong dirPath ((item, n) # rest)) \<subseteq>
                set (entriesAmong dirPath ((item, n) # rest')) \<union> gone evsr"
          using br n entriesAmong_append[of dirPath "[(item, n)]"] by auto
        with ar res show ?thesis by simp
      qed
    qed
  qed
qed (simp_all add: spares_single)

lemma scanRoots_invariant:
  "scanRoots cfg opts e dirs w = (w', evs) \<Longrightarrow>
     spares cfg evs \<and> backups w' = backups w \<and>
     (\<forall>k. set (entriesUnder k (tree w k)) \<subseteq> set (entriesUnder k (tree w' k)) \<union> gone evs)"
proof (induction dirs arbitrary: w w' evs)
  case Nil
  then show ?case by auto
next
  case (Cons dir dirs)
  obtain n evs1 where s1: "scanDirectory cfg opts e dir (tree w dir) = (n, evs1)"
    by (cases "scanDirectory cfg opts e dir (tree w dir)")
  define w1 where "w1 = w\<lparr>tree := (tree w)(dir := n)\<rparr>"
  obtain w2 evs2 where s2: "scanRoots cfg opts e dirs w1 = (w2, evs2)"
    by (cases "scanRoots cfg opts e dirs w1")
  from Cons.prems s1 s2 have res: "w' = w2" "evs = ScanningDirectory dir # evs1 @ evs2"
    by (auto simp: w1_def)
  from scan_invariant(1)[of cfg opts e dir "tree w dir"] s1
  have a1: "spares cfg evs1"
    and b1: "set (entriesUnder dir (tree w dir)) \<subseteq> set (entriesUnder dir n) \<union> gone evs1"
    by auto
  from Cons.IH[OF s2]
  have a2: "spares cfg evs2" and c2: "backups w2 = backups w1"
    and b2: "\<And>k. set (entriesUnder k (tree w1 k)) \<subseteq> set (entriesUnder k (tree w2 k)) \<union> gone evs2"
    by auto
  have sp: "spares cfg evs"
    using a1 a2 by (simp add: res spares_Cons_neutral fileVictim_def dirVictim_def)
  have g: "gone (ScanningDirectory dir # evs1 @ evs2) = gone evs1 \<union> gone evs2"
    by (auto simp: gone_def)
  have "set (entriesUnder k (tree w k)) \<subseteq> set (entriesUnder k (tree w' k)) \<union> gone evs" for k
  proof (cases "k = dir")
    case True
    then show ?thesis using b1 b2[of dir] by (auto simp: g res w1_def)
  next
    case False
    then show ?thesis using b2[of k] by (auto simp: g res w1_def)
  qed
  with sp c2 show ?case by (simp add: res w1_def)
qed

lemma frontend_step:
  "removeEmptyFrontendStep cfg opts w = (w', evs) \<Longrightarrow>
     backups w' = backups w \<and>
     (\<forall>ev \<in> set evs. fileVictim ev = None \<and> (dirVictim ev = None \<or> dirVictim ev = Some ''frontend'')) \<and>
     (\<forall>k. set (entriesUnder k (tree w k)) \<subseteq> set (entriesUnder k (tree w' k)))"
  by (auto simp: removeEmptyFrontendStep_def Let_def isEmptyDir_def readdirSync_def
      handleDirectoryDeletion_def deleteDirectory_def rmdirSync_def fileVictim_def dirVictim_def
      split: if_splits prod.splits option.splits node.splits)

lemma sweep_events:
  "\<forall>ev \<in> set (snd (sweepBackupDates parseDate cfg e es)). fileVictim ev = None \<and> dirVictim ev = None"
  by (induction es)
     (auto simp: checkBackupDate_def Let_def fileVictim_def dirVictim_def
       split: prod.splits option.splits if_splits)

lemma cleanupOldBackups_events:
  "\<forall>ev \<in> set (snd (cleanupOldBackups parseDate cfg e b)). fileVictim ev = None \<and> dirVictim ev = None"
proof (cases b)
  case (BackupRoot es)
  obtain left evs where s: "sweepBackupDates parseDate cfg e es = (left, evs)"
    by (cases "sweepBackupDates parseDate cfg e es")
  with sweep_events[of parseDate cfg e es]
  have "\<forall>ev \<in> set evs. fileVictim ev = None \<and> dirVictim ev = None" by simp
  then show ?thesis using BackupRoot s by (simp add: cleanupOldBackups_def)
qed (simp_all add: cleanupOldBackups_def fileVictim_def dirVictim_def)

lemma runCleanup_parts:
  assumes "runCleanup parseDate cfg opts e w = (w', evs)"
  obtains w1 evs1 w2 evs2 b evs3 where
    "scanRoots cfg opts e (map snd (directories cfg)) w = (w1, evs1)"
    "removeEmptyFrontendStep cfg opts w1 = (w2, evs2)"
    "cleanupOldBackups parseDate cfg e
       (if reachedBackup (evs1 @ evs2) then withPartition (today e) (backups w2) else backups w2) =
     (b, evs3)"
    "w' = w2\<lparr>backups := b\<rparr>"
    "evs = StartingCleanup (dryRun opts) # evs1 @ evs2 @ evs3 @
           (if dryRun opts then [DryRunNotice, ReadlineClosed] else [])"
  using assms by (auto simp: runCleanup_def Let_def split: prod.splits)

lemma runCleanup_victims:
  assumes "runCleanup parseDate cfg opts e w = (w', evs)"
  shows "\<forall>ev \<in> set evs.
           (\<forall>p. fileVictim ev = Some p \<longrightarrow> \<not> isEssentialFile cfg p) \<and>
           (\<forall>p. dirVictim ev = Some p \<longrightarrow> \<not> isEssentialDirectory cfg p \<or> p = ''frontend'')"
    and "set (entriesUnder k (tree w k)) \<subseteq> set (entriesUnder k (tree w' k)) \<union> gone evs"
proof -
  from assms obtain w1 evs1 w2 evs2 b evs3 where
    s1: "scanRoots cfg opts e (map snd (directories cfg)) w = (w1, evs1)" and
    s2: "removeEmptyFrontendStep cfg opts w1 = (w2, evs2)" and
    s3: "cleanupOldBackups parseDate cfg e
       (if reachedBackup (evs1 @ evs2) then withPartition (today e) (backups w2) else backups w2) =
     (b, evs3)" and
    w': "w' = w2\<lparr>backups := b\<rparr>" and
    evs: "evs = StartingCleanup (dryRun opts) # evs1 @ evs2 @ evs3 @
           (if dryRun opts then [DryRunNotice, ReadlineClosed] else [])"
    by (rule runCleanup_parts)
  note i1 = scanRoots_invariant[OF s1]
  note i2 = frontend_step[OF s2]
  have i3: "\<forall>ev \<in> set evs3. fileVictim ev = None \<and> dirVictim ev = None"
    using cleanupOldBackups_events[of parseDate cfg e] s3 by (metis snd_conv)
  have tl: "\<forall>ev \<in> set (StartingCleanup (dryRun opts) #
              (if dryRun opts then [DryRunNotice, ReadlineClosed] else [])).
              fileVictim ev = None \<and> dirVictim ev = None"
    by (auto simp: fileVictim_def dirVictim_def)
  show "\<forall>ev \<in> set evs.
           (\<forall>p. fileVictim ev = Some p \<longrightarrow> \<not> isEssentialFile cfg p) \<and>
           (\<forall>p. dirVictim ev = Some p \<longrightarrow> \<not> isEssentialDirectory cfg p \<or> p = ''frontend'')"
  proof
    fix ev assume "ev \<in> set evs"
    then consider "ev \<in> set evs1" | "ev \<in> set evs2" | "ev \<in> set evs3"
      | "ev \<in> set (StartingCleanup (dryRun opts) #
              (if dryRun opts then [DryRunNotice, ReadlineClosed] else []))"
      unfolding evs by (auto split: if_splits)
    then show "(\<forall>p. fileVictim ev = Some p \<longrightarrow> \<not> isEssentialFile cfg p) \<and>
           (\<forall>p. dirVictim ev = Some p \<longrightarrow> \<not> isEssentialDirectory cfg p \<or> p = ''frontend'')"
    proof cases
      case 1
      then show ?thesis using i1 by (auto simp: spares_def)
    next
      case 2
      then show ?thesis using i2 by auto
    next
      case 3
      then show ?thesis using i3 by auto
    next
      case 4
      then show ?thesis using tl by auto
    qed
  qed
  have "gone evs1 \<subseteq> gone evs"
    unfolding evs by (auto simp: gone_def)
  moreover have "set (entriesUnder k (tree w k)) \<subseteq> set (entriesUnder k (tree w1 k)) \<union> gone evs1"
    using i1 by blast
  moreover have "set (entriesUnder k (tree w1 k)) \<subseteq> set (entriesUnder k (tree w2 k))"
    using i2 by blast
  ultimately show "set (entriesUnder k (tree w k)) \<subseteq> set (entriesUnder k (tree w' k)) \<union> gone evs"
    unfolding w' by auto
qed

section \<open>Essential paths\<close>

text \<open>
  Claim C1, as amended. The traversal of the configured directories, in a dry run and
  in a deleting one, never proposes for deletion, asks about or deletes a file whose
  base name matches an essential pattern, nor a directory whose own base name is in
  the essential-directory set, whatever its extension or age: no message of a run
  names such a path as proposed, asked about or deleted, and such a file or directory
  that was below one of the configured directories before the run is still there
  after it (the backup directory lying outside the configured directories). Two steps
  of a run are apart, and neither looks at the essential set: the step for the empty
  top-level directory \<open>frontend\<close>, and the retention sweep, which removes every old
  partition of the backup directory with all the files and directories it holds and
  reports it with a message of its own, \<open>RemovedOldBackup\<close>. A file that only lies
  inside an essential directory is not protected by that, nor is a directory by a
  name that matches an essential pattern.
\<close>

theorem essential_paths_spared:
  assumes "runCleanup parseDate cfg opts e w = (w', evs)"
  shows "(isEssentialFile cfg p \<longrightarrow>
            WouldDeleteFile p r \<notin> set evs \<and> AskDeleteFile p r \<notin> set evs \<and>
            DeletingFile p \<notin> set evs \<and> DeletedFile p \<notin> set evs \<and>
            ((p, False) \<in> set (entriesUnder dir (tree w dir)) \<longrightarrow>
             (p, False) \<in> set (entriesUnder dir (tree w' dir)))) \<and>
         (isEssentialDirectory cfg p \<and> p \<noteq> ''frontend'' \<longrightarrow>
            WouldDeleteDirectory p r \<notin> set evs \<and> AskDeleteDirectory p r \<notin> set evs \<and>
            DeletedDirectory p \<notin> set evs \<and>
            ((p, True) \<in> set (entriesUnder dir (tree w dir)) \<longrightarrow>
             (p, True) \<in> set (entriesUnder dir (tree w' dir))))"
proof -
  note v = runCleanup_victims(1)[OF assms, rule_format]
  note k = runCleanup_victims(2)[OF assms, of dir]
  have f: "isEssentialFile cfg p \<Longrightarrow> ev \<in> set evs \<Longrightarrow> fileVictim ev \<noteq> Some p" for ev
    using v by blast
  have d: "isEssentialDirectory cfg p \<Longrightarrow> p \<noteq> ''frontend'' \<Longrightarrow> ev \<in> set evs \<Longrightarrow>
             dirVictim ev \<noteq> Some p" for ev
    using v by blast
  have files: "WouldDeleteFile p r \<notin> set evs \<and> AskDeleteFile p r \<notin> set evs \<and>
            DeletingFile p \<notin> set evs \<and> DeletedFile p \<notin> set evs" if "isEssentialFile cfg p"
    using f[OF that, of "WouldDeleteFile p r"] f[OF that, of "AskDeleteFile p r"]
      f[OF that, of "DeletingFile p"] f[OF that, of "DeletedFile p"]
    by (auto simp: fileVictim_def)
  have dirs: "WouldDeleteDirectory p r \<notin> set evs \<and> AskDeleteDirectory p r \<notin> set evs \<and>
            DeletedDirectory p \<notin> set evs" if "isEssentialDirectory cfg p" "p \<noteq> ''frontend''"
    using d[OF that, of "WouldDeleteDirectory p r"] d[OF that, of "AskDeleteDirectory p r"]
      d[OF that, of "DeletedDirectory p"]
    by (auto simp: dirVictim_def)
  have "(p, False) \<in> set (entriesUnder dir (tree w' dir))"
    if "isEssentialFile cfg p" "(p, False) \<in> set (entriesUnder dir (tree w dir))"
    using files[OF that(1)] k that(2) by (auto simp: gone_def)
  moreover have "(p, True) \<in> set (entriesUnder dir (tree w' dir))"
    if "isEssentialDirectory cfg p" "p \<noteq> ''frontend''"
      "(p, True) \<in> set (entriesUnder dir (tree w dir))"
    using dirs[OF that(1,2)] k that(3) by (auto simp: gone_def)
  ultimately show ?thesis using files dirs by blast
qed

lemma default_fields:
  "essentialDirectories getDefaultConfig =
     [''node_modules'', ''src'', ''backend'', ''public'', ''controllers'', ''models'',
      ''routes'', ''config'', ''components'', ''contexts'', ''pages'', ''services'',
      ''hooks'', ''utils'', ''lib'']"
  "artifactExtensions getDefaultConfig =
     [''.log'', ''.tmp'', ''.temp'', ''.DS_Store'', ''.bak'', ''Thumbs.db'']"
  "accessThresholdDays getDefaultConfig = 30"
  "backupRetentionDays getDefaultConfig = 14"
  "backupDir getDefaultConfig = ''.file-backup''"
  "options getDefaultConfig =
     \<lparr> promptBeforeDeletion = True, removeEmptyDirectories = True,
       removeEmptyFrontend = True, createBackups = True \<rparr>"
  "map snd (directories getDefaultConfig) = [''src'', ''backend'', ''database'', ''public'']"
  by (simp_all add: getDefaultConfig_def)

lemma essential_samples:
  "isEssentialFile getDefaultConfig ''src/README.md''"
  "\<not> isEssentialFile getDefaultConfig ''src/debug.log''"
  "\<not> isEssentialFile getDefaultConfig ''src/components/debug.log''"
  by (simp_all add: isEssentialFile_def getDefaultConfig_def basename_def test_def)

lemma essential_config_independent:
  "isEssentialFile (cfg\<lparr>options := x\<rparr>) p = isEssentialFile cfg p"
  "isEssentialDirectory (cfg\<lparr>options := x\<rparr>) p = isEssentialDirectory cfg p"
  "isBuildArtifact (cfg\<lparr>options := x\<rparr>) p = isBuildArtifact cfg p"
  by (simp_all add: isEssentialFile_def isEssentialDirectory_def isBuildArtifact_def)

text \<open>
  A deleting run without questions over \<open>src\<close> holding an old \<open>README.md\<close> and an
  empty directory \<open>components\<close>.
\<close>

theorem essential_paths_spared_witness:
  "isEssentialFile noPromptConfig ''src/README.md'' \<and>
   (''src/README.md'', False) \<in> set (entriesUnder ''src''
      (Dir sampleDir [(''README.md'', File (sampleFile 0 ''docs'')), (''components'', Dir sampleDir [])])) \<and>
   isEssentialDirectory noPromptConfig ''src/components'' \<and>
   (''src/components'', True) \<in> set (entriesUnder ''src''
      (Dir sampleDir [(''README.md'', File (sampleFile 0 ''docs'')), (''components'', Dir sampleDir [])])) \<and>
   DeletedFile ''src/README.md'' \<notin> set (snd (runCleanup parseIsoDate noPromptConfig \<lparr>dryRun = False\<rparr> jan20
      \<lparr> tree = (\<lambda>p. NoEntry)(''src'' := Dir sampleDir
                 [(''README.md'', File (sampleFile 0 ''docs'')), (''components'', Dir sampleDir [])]),
        backups = NoBackupRoot \<rparr>)) \<and>
   DeletedDirectory ''src/components'' \<notin> set (snd (runCleanup parseIsoDate noPromptConfig \<lparr>dryRun = False\<rparr> jan20
      \<lparr> tree = (\<lambda>p. NoEntry)(''src'' := Dir sampleDir
                 [(''README.md'', File (sampleFile 0 ''docs'')), (''components'', Dir sampleDir [])]),
        backups = NoBackupRoot \<rparr>)) \<and>
   {(''src/README.md'', False), (''src/components'', True)} \<subseteq>
     set (entriesUnder ''src'' (tree (fst (runCleanup parseIsoDate noPromptConfig \<lparr>dryRun = False\<rparr> jan20
      \<lparr> tree = (\<lambda>p. NoEntry)(''src'' := Dir sampleDir
                 [(''README.md'', File (sampleFile 0 ''docs'')), (''components'', Dir sampleDir [])]),
        backups = NoBackupRoot \<rparr>)) ''src''))"
proof -
  let ?w = "\<lparr> tree = (\<lambda>p. NoEntry)(''src'' := Dir sampleDir
                 [(''README.md'', File (sampleFile 0 ''docs'')), (''components'', Dir sampleDir [])]),
        backups = NoBackupRoot \<rparr>"
  let ?run = "runCleanup parseIsoDate noPromptConfig \<lparr>dryRun = False\<rparr> jan20 ?w"
  have f: "isEssentialFile noPromptConfig ''src/README.md''"
    by (simp add: essential_config_independent essential_samples)
  have d: "isEssentialDirectory noPromptConfig ''src/components''"
    by (simp add: essential_config_independent)
       (simp add: isEssentialDirectory_def basename_def default_fields)
  have m: "(''src/README.md'', False) \<in> set (entriesUnder ''src'' (tree ?w ''src''))"
    "(''src/components'', True) \<in> set (entriesUnder ''src'' (tree ?w ''src''))"
    by (simp_all add: path_join_def)
  have run: "?run = (fst ?run, snd ?run)" by simp
  note t1 = essential_paths_spared[OF run, of "''src/README.md''" _ "''src''"]
  note t2 = essential_paths_spared[OF run, of "''src/components''" _ "''src''"]
  from t1 f m(1) have "DeletedFile ''src/README.md'' \<notin> set (snd ?run)"
    and "(''src/README.md'', False) \<in> set (entriesUnder ''src'' (tree (fst ?run) ''src''))"
    by blast+
  moreover from t2 d m(2) have "DeletedDirectory ''src/components'' \<notin> set (snd ?run)"
    and "(''src/components'', True) \<in> set (entriesUnder ''src'' (tree (fst ?run) ''src''))"
    by auto
  ultimately show ?thesis using f d m by simp
qed

text \<open>
  The claim as first stated fails for a path inside an essential directory:
  \<open>src/components/debug.log\<close> lies inside two of them and is proposed. It fails for a
  directory whose name matches an essential pattern: the empty directory \<open>.env.d\<close> is
  proposed. It fails for the directory \<open>frontend\<close> when the configuration lists
  that name as essential. And it fails in the retention sweep: a dry run removes the
  partition \<open>2024-01-01\<close> of the backup directory although the configuration lists
  that name as essential, as it removes the directories \<open>src\<close>, \<open>backend\<close> and \<open>public\<close>
  that the partition holds.
\<close>

theorem inside_essential_directory_is_proposed:
  "isEssentialDirectory getDefaultConfig ''src'' \<and>
   isEssentialDirectory getDefaultConfig ''src/components'' \<and>
   scanDirectory getDefaultConfig \<lparr>dryRun = True\<rparr> jan20 ''src''
     (Dir sampleDir [(''components'', Dir sampleDir [(''debug.log'', File (sampleFile 0 ''trace''))])]) =
   (Dir sampleDir [(''components'', Dir sampleDir [(''debug.log'', File (sampleFile 0 ''trace''))])],
    [WouldDeleteFile ''src/components/debug.log'' ''Build artifact'']) \<and>
   isEssentialFile getDefaultConfig ''src/.env.d'' \<and>
   scanDirectory getDefaultConfig \<lparr>dryRun = True\<rparr> jan20 ''src''
     (Dir sampleDir [(''.env.d'', Dir sampleDir [])]) =
   (Dir sampleDir [(''.env.d'', Dir sampleDir [])],
    [WouldDeleteDirectory ''src/.env.d'' ''Empty directory'']) \<and>
   isEssentialDirectory
     (getDefaultConfig\<lparr>essentialDirectories := ''frontend'' # essentialDirectories getDefaultConfig\<rparr>)
     ''frontend'' \<and>
   snd (runCleanup parseIsoDate
          (getDefaultConfig\<lparr>essentialDirectories := ''frontend'' # essentialDirectories getDefaultConfig\<rparr>)
          \<lparr>dryRun = True\<rparr> jan20
          \<lparr> tree = (\<lambda>p. NoEntry)(''frontend'' := Dir sampleDir []), backups = NoBackupRoot \<rparr>) =
   [StartingCleanup True,
    ScanningDirectory ''src'', DirectoryDoesNotExist ''src'',
    ScanningDirectory ''backend'', DirectoryDoesNotExist ''backend'',
    ScanningDirectory ''database'', DirectoryDoesNotExist ''database'',
    ScanningDirectory ''public'', DirectoryDoesNotExist ''public'',
    WouldDeleteEmptyFrontend ''frontend'', DryRunNotice, ReadlineClosed] \<and>
   isEssentialDirectory
     (getDefaultConfig\<lparr>essentialDirectories := ''2024-01-01'' # essentialDirectories getDefaultConfig\<rparr>)
     (path_join (path_join (cwd jan20) (backupDir getDefaultConfig)) ''2024-01-01'') \<and>
   runCleanup parseIsoDate
     (getDefaultConfig\<lparr>essentialDirectories := ''2024-01-01'' # essentialDirectories getDefaultConfig\<rparr>)
     \<lparr>dryRun = True\<rparr> jan20
     \<lparr> tree = (\<lambda>p. NoEntry), backups = BackupRoot [samplePartition ''2024-01-01''] \<rparr> =
   (\<lparr> tree = (\<lambda>p. NoEntry), backups = BackupRoot [] \<rparr>,
    [StartingCleanup True,
     ScanningDirectory ''src'', DirectoryDoesNotExist ''src'',
     ScanningDirectory ''backend'', DirectoryDoesNotExist ''backend'',
     ScanningDirectory ''database'', DirectoryDoesNotExist ''database'',
     ScanningDirectory ''public'', DirectoryDoesNotExist ''public'',
     RemovedOldBackup ''2024-01-01'', DryRunNotice, ReadlineClosed])"
proof -
  have pj: "path_join ''src'' ''components'' = ''src/components''"
    "path_join ''src/components'' ''debug.log'' = ''src/components/debug.log''"
    by (simp_all add: path_join_def)
  have a: "isBuildArtifact getDefaultConfig ''src/components/debug.log''"
    by (simp add: isBuildArtifact_def default_fields basename_def extname_def
        toLowerCase_def lower_char_def)
  have e: "isEssentialDirectory getDefaultConfig ''src''"
    "isEssentialDirectory getDefaultConfig ''src/components''"
    by (simp_all add: isEssentialDirectory_def basename_def default_fields)
  have c: "checkFile getDefaultConfig \<lparr>dryRun = True\<rparr> jan20 ''src/components/debug.log''
             (File (sampleFile 0 ''trace'')) =
           (Some (File (sampleFile 0 ''trace'')),
            [WouldDeleteFile ''src/components/debug.log'' ''Build artifact''])"
    using a essential_samples(3) by (simp add: checkFile_def handleFileDeletion_def)
  have ce: "checkEmptyDirectory getDefaultConfig \<lparr>dryRun = True\<rparr> ''src/components'' n = (Some n, [])" for n
    using e(2) by (simp add: checkEmptyDirectory_def)
  have s: "scanDirectory getDefaultConfig \<lparr>dryRun = True\<rparr> jan20 ''src''
     (Dir sampleDir [(''components'', Dir sampleDir [(''debug.log'', File (sampleFile 0 ''trace''))])]) =
   (Dir sampleDir [(''components'', Dir sampleDir [(''debug.log'', File (sampleFile 0 ''trace''))])],
    [WouldDeleteFile ''src/components/debug.log'' ''Build artifact''])"
    by (simp add: pj c ce statSync_def entry_def)
  have pe: "path_join ''src'' ''.env.d'' = ''src/.env.d''"
    by (simp add: path_join_def)
  have ee: "isEssentialFile getDefaultConfig ''src/.env.d''"
    by (simp add: isEssentialFile_def getDefaultConfig_def basename_def test_def)
  have ne: "\<not> isEssentialDirectory getDefaultConfig ''src/.env.d''"
    by (simp add: isEssentialDirectory_def basename_def default_fields)
  have se: "scanDirectory getDefaultConfig \<lparr>dryRun = True\<rparr> jan20 ''src''
     (Dir sampleDir [(''.env.d'', Dir sampleDir [])]) =
   (Dir sampleDir [(''.env.d'', Dir sampleDir [])],
    [WouldDeleteDirectory ''src/.env.d'' ''Empty directory''])"
    using ne
    by (simp add: pe statSync_def entry_def checkEmptyDirectory_def isEmptyDir_def
        readdirSync_def handleDirectoryDeletion_def default_fields)
  have ef: "isEssentialDirectory
     (getDefaultConfig\<lparr>essentialDirectories := ''frontend'' # essentialDirectories getDefaultConfig\<rparr>)
     ''frontend''"
    by (simp add: isEssentialDirectory_def basename_def)
  have r: "snd (runCleanup parseIsoDate
          (getDefaultConfig\<lparr>essentialDirectories := ''frontend'' # essentialDirectories getDefaultConfig\<rparr>)
          \<lparr>dryRun = True\<rparr> jan20
          \<lparr> tree = (\<lambda>p. NoEntry)(''frontend'' := Dir sampleDir []), backups = NoBackupRoot \<rparr>) =
   [StartingCleanup True,
    ScanningDirectory ''src'', DirectoryDoesNotExist ''src'',
    ScanningDirectory ''backend'', DirectoryDoesNotExist ''backend'',
    ScanningDirectory ''database'', DirectoryDoesNotExist ''database'',
    ScanningDirectory ''public'', DirectoryDoesNotExist ''public'',
    WouldDeleteEmptyFrontend ''frontend'', DryRunNotice, ReadlineClosed]"
    by (simp add: runCleanup_def default_fields removeEmptyFrontendStep_def existsSync_def
        isEmptyDir_def readdirSync_def reachedBackup_def cleanupOldBackups_def Let_def)
  have eb: "isEssentialDirectory
     (getDefaultConfig\<lparr>essentialDirectories := ''2024-01-01'' # essentialDirectories getDefaultConfig\<rparr>)
     (path_join (path_join (cwd jan20) (backupDir getDefaultConfig)) ''2024-01-01'')"
    by (simp add: isEssentialDirectory_def basename_def path_join_def default_fields)
  have pd: "parseIsoDate ''2024-01-01'' = Some 1704067200000"
    by (simp add: parseIsoDate_def digit_def daysFromCivil_def daysInMonth_def)
  have rb: "runCleanup parseIsoDate
     (getDefaultConfig\<lparr>essentialDirectories := ''2024-01-01'' # essentialDirectories getDefaultConfig\<rparr>)
     \<lparr>dryRun = True\<rparr> jan20
     \<lparr> tree = (\<lambda>p. NoEntry), backups = BackupRoot [samplePartition ''2024-01-01''] \<rparr> =
   (\<lparr> tree = (\<lambda>p. NoEntry), backups = BackupRoot [] \<rparr>,
    [StartingCleanup True,
     ScanningDirectory ''src'', DirectoryDoesNotExist ''src'',
     ScanningDirectory ''backend'', DirectoryDoesNotExist ''backend'',
     ScanningDirectory ''database'', DirectoryDoesNotExist ''database'',
     ScanningDirectory ''public'', DirectoryDoesNotExist ''public'',
     RemovedOldBackup ''2024-01-01'', DryRunNotice, ReadlineClosed])"
    by (simp add: runCleanup_def default_fields removeEmptyFrontendStep_def existsSync_def
        reachedBackup_def cleanupOldBackups_def checkBackupDate_def pd msPerDay_def Let_def)
       (simp add: fun_eq_iff)
  from e s ee se ef r eb rb show ?thesis by blast
qed

text \<open>
  The retention sweep does not look at the essential patterns or directory names: it
  does the same under any of them.
\<close>

lemma sweep_ignores_essential_set:
  "cleanupOldBackups parseDate (cfg\<lparr>essentialPatterns := ps, essentialDirectories := ds\<rparr>) e b =
   cleanupOldBackups parseDate cfg e b"
proof -
  have c: "checkBackupDate parseDate (cfg\<lparr>essentialPatterns := ps, essentialDirectories := ds\<rparr>) e x =
           checkBackupDate parseDate cfg e x" for x
    by (simp add: checkBackupDate_def split: option.splits)
  have "sweepBackupDates parseDate (cfg\<lparr>essentialPatterns := ps, essentialDirectories := ds\<rparr>) e es =
        sweepBackupDates parseDate cfg e es" for es
    by (induction es) (simp_all add: c)
  then show ?thesis by (simp add: cleanupOldBackups_def split: backup_root.splits)
qed

section \<open>Removing a directory\<close>

text \<open>
  Claim C10. \<open>deleteDirectory\<close> on a directory that has entries fails: the directory
  and all it holds are left as they are and the error is printed. The same holds when
  the deletion is confirmed with \<open>y\<close> or \<open>Y\<close>, and \<open>handleDirectoryDeletion\<close> leaves
  such a directory in place in every mode. In a traversal, every file or directory
  that is gone afterwards was deleted by a call of its own and reported.
\<close>

theorem nonempty_directory_survives_rmdir:
  "deleteDirectory dirPath reason (Dir d (x # xs)) =
     (Some (Dir d (x # xs)), [ErrorDeletingDirectory dirPath]) \<and>
   answerDirectoryDeletion ''y'' dirPath reason (Dir d (x # xs)) =
     (Some (Dir d (x # xs)), [ErrorDeletingDirectory dirPath]) \<and>
   answerDirectoryDeletion ''Y'' dirPath reason (Dir d (x # xs)) =
     (Some (Dir d (x # xs)), [ErrorDeletingDirectory dirPath]) \<and>
   fst (handleDirectoryDeletion cfg opts dirPath reason (Dir d (x # xs))) = Some (Dir d (x # xs)) \<and>
   set (entriesUnder dirPath n) \<subseteq>
     set (entriesUnder dirPath (fst (scanDirectory cfg opts e dirPath n))) \<union>
     gone (snd (scanDirectory cfg opts e dirPath n))"
proof -
  have del: "deleteDirectory dirPath reason (Dir d (x # xs)) =
     (Some (Dir d (x # xs)), [ErrorDeletingDirectory dirPath])"
    by (simp add: deleteDirectory_def rmdirSync_def)
  have yes: "toLowerCase ''y'' = ''y''" "toLowerCase ''Y'' = ''y''"
    by (simp_all add: toLowerCase_def lower_char_def)
  have "fst (handleDirectoryDeletion cfg opts dirPath reason (Dir d (x # xs))) = Some (Dir d (x # xs))"
    by (simp add: handleDirectoryDeletion_def del)
  then show ?thesis
    using scan_invariant(1)[of cfg opts e dirPath n]
    by (simp add: del answerDirectoryDeletion_def yes)
qed

section \<open>The retention sweep\<close>

lemma sweep_filter:
  "sweepBackupDates parseDate cfg e es =
     (filter (\<lambda>x. case parseDate (pname x) of
                     None \<Rightarrow> True
                   | Some t \<Rightarrow> real_of_int (now e - t) / msPerDay \<le> backupRetentionDays cfg \<or> \<not> rm_ok x) es,
      map (\<lambda>x. if rm_ok x then RemovedOldBackup (pname x) else ErrorProcessingBackup (pname x))
        (filter (\<lambda>x. case parseDate (pname x) of
                        None \<Rightarrow> False
                      | Some t \<Rightarrow> real_of_int (now e - t) / msPerDay > backupRetentionDays cfg) es))"
  by (induction es) (auto simp: checkBackupDate_def Let_def split: option.splits)

text \<open>
  Claim C8. When backups are enabled, the sweep over the backup directory keeps an
  entry if its name is not a date, or if its age in days, \<open>(now - date) / msPerDay\<close>,
  is at most \<open>backupRetentionDays\<close>; it calls for the removal of every other entry,
  those whose age is strictly greater. An entry of exactly the retention age stays.
  Names that are not dates cause no message. (A removal that fails is caught: the
  entry stays and an error is printed for it.)
\<close>

theorem retention_sweep:
  assumes "createBackups (options cfg)"
  shows "cleanupOldBackups parseDate cfg e (BackupRoot es) =
     (BackupRoot
        (filter (\<lambda>x. case parseDate (pname x) of
                        None \<Rightarrow> True
                      | Some t \<Rightarrow> real_of_int (now e - t) / msPerDay \<le> backupRetentionDays cfg \<or>
                                 \<not> rm_ok x) es),
      map (\<lambda>x. if rm_ok x then RemovedOldBackup (pname x) else ErrorProcessingBackup (pname x))
        (filter (\<lambda>x. case parseDate (pname x) of
                        None \<Rightarrow> False
                      | Some t \<Rightarrow> real_of_int (now e - t) / msPerDay > backupRetentionDays cfg) es))"
  using assms by (simp add: cleanupOldBackups_def sweep_filter)

lemma parse_samples:
  "parseIsoDate ''2024-01-01'' = Some 1704067200000"
  "parseIsoDate ''2024-01-05'' = Some 1704412800000"
  "parseIsoDate ''2024-01-06'' = Some 1704499200000"
  "parseIsoDate ''2024-01-20'' = Some 1705708800000"
  "parseIsoDate ''notes'' = None"
  by (simp_all add: parseIsoDate_def digit_def daysFromCivil_def daysInMonth_def)

text \<open>
  Retention 14 days, now 2024-01-20: the partitions of 2024-01-01 (19 days) and
  2024-01-05 (15 days) are removed, those of 2024-01-06 (14 days) and 2024-01-20
  (0 days) and the entry \<open>notes\<close> stay.
\<close>

theorem retention_sweep_witness:
  "createBackups (options getDefaultConfig) \<and>
   backupRetentionDays getDefaultConfig = 14 \<and>
   cleanupOldBackups parseIsoDate getDefaultConfig jan20
     (BackupRoot [samplePartition ''2024-01-01'', samplePartition ''2024-01-05'', samplePartition ''2024-01-06'',
                  samplePartition ''2024-01-20'', samplePartition ''notes'']) =
   (BackupRoot [samplePartition ''2024-01-06'', samplePartition ''2024-01-20'', samplePartition ''notes''],
    [RemovedOldBackup ''2024-01-01'', RemovedOldBackup ''2024-01-05''])"
proof -
  have c: "createBackups (options getDefaultConfig)"
    and r: "backupRetentionDays getDefaultConfig = 14"
    by (simp_all add: getDefaultConfig_def)
  show ?thesis
    using c r retention_sweep[OF c, of parseIsoDate jan20
        "[samplePartition ''2024-01-01'', samplePartition ''2024-01-05'', samplePartition ''2024-01-06'',
          samplePartition ''2024-01-20'', samplePartition ''notes'']"]
    by (simp add: parse_samples msPerDay_def)
qed

section \<open>The dry run\<close>

lemma reachedBackup_append [simp]:
  "reachedBackup (xs @ ys) \<longleftrightarrow> reachedBackup xs \<or> reachedBackup ys"
  by (simp add: reachedBackup_def)

lemma reachedBackup_Nil [simp]: "\<not> reachedBackup []"
  by (simp add: reachedBackup_def)

lemma checkFile_dry_run:
  "dryRun opts \<Longrightarrow> checkFile cfg opts e p n = (left, evs) \<Longrightarrow> left = Some n \<and> \<not> reachedBackup evs"
  by (auto simp: checkFile_def handleFileDeletion_def isRecentlyAccessed_def reachedBackup_def
      split: prod.splits if_splits option.splits)

lemma checkEmptyDirectory_dry_run:
  "dryRun opts \<Longrightarrow> checkEmptyDirectory cfg opts p n = (left, evs) \<Longrightarrow>
     left = Some n \<and> \<not> reachedBackup evs"
  by (auto simp: checkEmptyDirectory_def handleDirectoryDeletion_def isEmptyDir_def
      reachedBackup_def split: prod.splits if_splits option.splits)

lemma scan_dry_run:
  "dryRun opts \<Longrightarrow> fst (scanDirectory cfg opts e dirPath n) = n \<and>
     \<not> reachedBackup (snd (scanDirectory cfg opts e dirPath n))"
  "dryRun opts \<Longrightarrow> fst (scanItems cfg opts e dirPath items) = items \<and>
     \<not> reachedBackup (fst (snd (scanItems cfg opts e dirPath items)))"
proof (induction cfg opts e dirPath n and cfg opts e dirPath items
    rule: scanDirectory_scanItems.induct)
  case (4 cfg opts e dirPath d items)
  then show ?case
    by (cases "scanItems cfg opts e dirPath items") (auto simp: reachedBackup_def)
next
  case (6 cfg opts e dirPath item n rest)
  let ?p = "path_join dirPath item"
  note dry = "6.prems"
  show ?case
  proof (cases "statSync n")
    case None
    then show ?thesis by simp
  next
    case (Some st)
    note IH = "6.IH"[OF refl Some]
    obtain rest' evsr thrown where sr: "scanItems cfg opts e dirPath rest = (rest', evsr, thrown)"
      by (cases "scanItems cfg opts e dirPath rest") auto
    show ?thesis
    proof (cases "isDirectory st")
      case True
      obtain n1 evs1 where s1: "scanDirectory cfg opts e ?p n = (n1, evs1)"
        by (cases "scanDirectory cfg opts e ?p n")
      obtain left evs2 where s2: "checkEmptyDirectory cfg opts ?p n1 = (left, evs2)"
        by (cases "checkEmptyDirectory cfg opts ?p n1")
      have "n1 = n \<and> \<not> reachedBackup evs1" using IH(1)[OF True dry] s1 by simp
      moreover have "left = Some n1 \<and> \<not> reachedBackup evs2"
        using checkEmptyDirectory_dry_run[OF dry s2] .
      moreover have "rest' = rest \<and> \<not> reachedBackup evsr"
        using IH(2)[OF True s1[symmetric] s2[symmetric] dry] sr by simp
      ultimately show ?thesis using Some True s1 s2 sr
        by (simp add: Let_def entry_def)
    next
      case False
      note nd = this
      show ?thesis
      proof (cases "isFile st")
        case True
        obtain left evs1 where s1: "checkFile cfg opts e ?p n = (left, evs1)"
          by (cases "checkFile cfg opts e ?p n")
        have "left = Some n \<and> \<not> reachedBackup evs1"
          using checkFile_dry_run[OF dry s1] .
        moreover have "rest' = rest \<and> \<not> reachedBackup evsr"
          using IH(3)[OF nd True s1[symmetric] dry] sr by simp
        ultimately show ?thesis using Some nd True s1 sr
          by (simp add: Let_def entry_def)
      next
        case False
        have "rest' = rest \<and> \<not> reachedBackup evsr"
          using IH(4)[OF nd False dry] sr by simp
        then show ?thesis using Some nd False sr
          by (simp add: Let_def)
      qed
    qed
  qed
qed (simp_all add: reachedBackup_def)

lemma scanRoots_dry_run:
  "dryRun opts \<Longrightarrow> scanRoots cfg opts e dirs w = (w', evs) \<Longrightarrow> w' = w \<and> \<not> reachedBackup evs"
proof (induction dirs arbitrary: w w' evs)
  case Nil
  then show ?case by simp
next
  case (Cons dir dirs)
  obtain n evs1 where s1: "scanDirectory cfg opts e dir (tree w dir) = (n, evs1)"
    by (cases "scanDirectory cfg opts e dir (tree w dir)")
  with scan_dry_run(1)[OF Cons.prems(1), of cfg e dir "tree w dir"]
  have n: "n = tree w dir" and nb: "\<not> reachedBackup evs1" by auto
  have same: "w\<lparr>tree := (tree w)(dir := n)\<rparr> = w" by (simp add: n)
  obtain w2 evs2 where s2: "scanRoots cfg opts e dirs w = (w2, evs2)"
    by (cases "scanRoots cfg opts e dirs w")
  from Cons.IH[OF Cons.prems(1) s2] have "w2 = w" "\<not> reachedBackup evs2" by auto
  then show ?case using Cons.prems(2) s1 s2 same nb
    by (auto simp: reachedBackup_def)
qed

lemma frontend_dry_run:
  "dryRun opts \<Longrightarrow> removeEmptyFrontendStep cfg opts w = (w', evs) \<Longrightarrow> w' = w \<and> \<not> reachedBackup evs"
  by (auto simp: removeEmptyFrontendStep_def Let_def isEmptyDir_def reachedBackup_def
      split: if_splits prod.splits option.splits)

text \<open>In a dry run the retention sweep is the only thing that changes the file system.\<close>

lemma dry_run_is_the_sweep:
  assumes "dryRun opts"
  shows "fst (runCleanup parseDate cfg opts e w) =
           w\<lparr>backups := fst (cleanupOldBackups parseDate cfg e (backups w))\<rparr>"
proof -
  obtain w' evs where r: "runCleanup parseDate cfg opts e w = (w', evs)"
    by (cases "runCleanup parseDate cfg opts e w")
  then obtain w1 evs1 w2 evs2 b evs3 where
    s1: "scanRoots cfg opts e (map snd (directories cfg)) w = (w1, evs1)" and
    s2: "removeEmptyFrontendStep cfg opts w1 = (w2, evs2)" and
    s3: "cleanupOldBackups parseDate cfg e
       (if reachedBackup (evs1 @ evs2) then withPartition (today e) (backups w2) else backups w2) =
     (b, evs3)" and
    w': "w' = w2\<lparr>backups := b\<rparr>"
    by (rule runCleanup_parts)
  from scanRoots_dry_run[OF assms s1] have 1: "w1 = w" "\<not> reachedBackup evs1" by auto
  from frontend_dry_run[OF assms s2] have 2: "w2 = w1" "\<not> reachedBackup evs2" by auto
  from s3 1 2 have "b = fst (cleanupOldBackups parseDate cfg e (backups w))" by simp
  then show ?thesis using r w' 1 2 by simp
qed

text \<open>
  Claim C2. A dry run with the default configuration over a backup directory that
  holds the partitions \<open>2024-01-01\<close> and \<open>2024-01-20\<close>, on 2024-01-20: the run removes
  the partition \<open>2024-01-01\<close> and then prints that nothing was deleted.
\<close>

theorem dry_run_removes_old_backups:
  "backups (fst (runCleanup parseIsoDate getDefaultConfig \<lparr>dryRun = True\<rparr> jan20
      \<lparr> tree = (\<lambda>p. NoEntry),
        backups = BackupRoot [samplePartition ''2024-01-01'', samplePartition ''2024-01-20''] \<rparr>)) =
     BackupRoot [samplePartition ''2024-01-20''] \<and>
   snd (runCleanup parseIsoDate getDefaultConfig \<lparr>dryRun = True\<rparr> jan20
      \<lparr> tree = (\<lambda>p. NoEntry),
        backups = BackupRoot [samplePartition ''2024-01-01'', samplePartition ''2024-01-20''] \<rparr>) =
     [StartingCleanup True,
      ScanningDirectory ''src'', DirectoryDoesNotExist ''src'',
      ScanningDirectory ''backend'', DirectoryDoesNotExist ''backend'',
      ScanningDirectory ''database'', DirectoryDoesNotExist ''database'',
      ScanningDirectory ''public'', DirectoryDoesNotExist ''public'',
      RemovedOldBackup ''2024-01-01'', DryRunNotice, ReadlineClosed]"
  by (simp add: runCleanup_def default_fields removeEmptyFrontendStep_def existsSync_def
      reachedBackup_def cleanupOldBackups_def checkBackupDate_def Let_def parse_samples
      msPerDay_def)

section \<open>Errors on one entry\<close>

text \<open>
  Claim C3. A directory \<open>src\<close> lists an entry whose \<^verbatim>\<open>statSync\<close> throws and, after it,
  \<open>debug.log\<close>. The dry run reports an error for \<open>src\<close> and proposes nothing: the
  loop is left at the bad entry and never reaches \<open>debug.log\<close>, which it proposes when
  the file is listed first. The analyzer's loop skips the bad entry and goes on to
  \<open>debug.log\<close>.
\<close>

theorem stat_error_abandons_siblings:
  "scanDirectory getDefaultConfig \<lparr>dryRun = True\<rparr> jan20 ''src''
     (Dir sampleDir [(''dangling'', NoEntry), (''debug.log'', File (sampleFile 0 ''trace''))]) =
   (Dir sampleDir [(''dangling'', NoEntry), (''debug.log'', File (sampleFile 0 ''trace''))],
    [ErrorScanningDirectory ''src'']) \<and>
   scanDirectory getDefaultConfig \<lparr>dryRun = True\<rparr> jan20 ''src''
     (Dir sampleDir [(''debug.log'', File (sampleFile 0 ''trace'')), (''dangling'', NoEntry)]) =
   (Dir sampleDir [(''debug.log'', File (sampleFile 0 ''trace'')), (''dangling'', NoEntry)],
    [WouldDeleteFile ''src/debug.log'' ''Build artifact'', ErrorScanningDirectory ''src'']) \<and>
   fileHashes (analyzeDirectory (\<lambda>c. c) ''src'' ''src''
     (Dir sampleDir [(''dangling'', NoEntry), (''debug.log'', File (sampleFile 0 ''trace''))])
     emptyAnalysis) ''trace'' = Some ''src/debug.log''"
proof -
  have pj: "path_join ''src'' ''debug.log'' = ''src/debug.log''"
    by (simp add: path_join_def)
  have a: "isBuildArtifact getDefaultConfig ''src/debug.log''"
    by (simp add: isBuildArtifact_def default_fields basename_def extname_def
        toLowerCase_def lower_char_def)
  have c: "checkFile getDefaultConfig \<lparr>dryRun = True\<rparr> jan20 ''src/debug.log''
             (File (sampleFile 0 ''trace'')) =
           (Some (File (sampleFile 0 ''trace'')),
            [WouldDeleteFile ''src/debug.log'' ''Build artifact''])"
    using a essential_samples(2) by (simp add: checkFile_def handleFileDeletion_def)
  show ?thesis
    by (simp add: pj c statSync_def entry_def calculateFileHash_def readFileSync_def
        checkDuplicate_def truthy_def emptyAnalysis_def)
qed

text \<open>Whatever follows the bad entry in the listing is not visited.\<close>

lemma stat_error_leaves_loop:
  "scanItems cfg opts e dirPath ((item, NoEntry) # rest) = ((item, NoEntry) # rest, [], True)"
  by (simp add: statSync_def)

text \<open>
  The other errors on one entry are caught where they arise, and the loop goes on: a
  subdirectory that cannot be listed, and a file that cannot be unlinked.
\<close>

lemma unlistable_subdirectory_is_passed:
  assumes "\<not> listable d"
  shows "scanItems cfg opts e dirPath ((item, Dir d kids) # rest) =
           (case scanItems cfg opts e dirPath rest of
              (rest', evs, thrown) \<Rightarrow>
                ((item, Dir d kids) # rest',
                 ErrorScanningDirectory (path_join dirPath item) #
                 (if removeEmptyDirectories (options cfg) \<and>
                     \<not> isEssentialDirectory cfg (path_join dirPath item)
                  then [ErrorCheckingEmpty (path_join dirPath item)] else []) @ evs,
                 thrown))"
  using assms
  by (simp add: statSync_def checkEmptyDirectory_def isEmptyDir_def readdirSync_def entry_def
      Let_def split: prod.splits)

lemma failed_unlink_is_passed:
  assumes "\<not> unlinkable f" and "\<not> dryRun opts" and "\<not> promptBeforeDeletion (options cfg)"
    and "\<not> isEssentialFile cfg (path_join dirPath item)"
    and "isBuildArtifact cfg (path_join dirPath item)"
  shows "scanItems cfg opts e dirPath ((item, File f) # rest) =
           (case scanItems cfg opts e dirPath rest of
              (rest', evs, thrown) \<Rightarrow>
                ((item, File f) # rest',
                 DeletingFile (path_join dirPath item) #
                 snd (backupFile cfg e (path_join dirPath item) (File f)) @
                 ErrorDeletingFile (path_join dirPath item) # evs,
                 thrown))"
  using assms
  by (simp add: statSync_def checkFile_def handleFileDeletion_def deleteFile_def unlinkSync_def
      entry_def Let_def split: prod.splits)

section \<open>A missing or unusable configuration file\<close>

text \<open>
  Claim C9, as amended. The cleanup script takes the built-in default configuration
  when the configuration file is absent, cannot be read or cannot be parsed. The
  structure analyzer takes its built-in default when the file is absent; when the file
  is there and cannot be read or parsed, it exits with status 1.
\<close>

theorem config_fallbacks:
  "loadCleanupConfig parseConfig NoEntry = getDefaultConfig \<and>
   loadCleanupConfig parseConfig (File (f\<lparr>content := None\<rparr>)) = getDefaultConfig \<and>
   (parseConfig txt = None \<longrightarrow>
      loadCleanupConfig parseConfig (File (f\<lparr>content := Some txt\<rparr>)) = getDefaultConfig) \<and>
   loadAnalyzerConfig parseJSON NoEntry = Inr analyzerDefaultConfig \<and>
   loadAnalyzerConfig parseJSON (File (f\<lparr>content := None\<rparr>)) = Inl 1 \<and>
   (parseJSON txt = None \<longrightarrow>
      loadAnalyzerConfig parseJSON (File (f\<lparr>content := Some txt\<rparr>)) = Inl 1)"
  by (simp add: loadCleanupConfig_def loadAnalyzerConfig_def existsSync_def readFileSync_def)

text \<open>A configuration file that does not parse.\<close>

theorem config_fallbacks_witness:
  "(\<lambda>s. None :: config option) ''{ broken'' = None \<and>
   loadCleanupConfig (\<lambda>s. None) (File (sampleFile 0 ''{ broken'')) = getDefaultConfig \<and>
   (\<lambda>s. None :: analyzer_config option) ''{ broken'' = None \<and>
   loadAnalyzerConfig (\<lambda>s. None) (File (sampleFile 0 ''{ broken'')) = Inl 1"
  using config_fallbacks[of "\<lambda>s. None" "sampleFile 0 []" "''{ broken''" "\<lambda>s. None"]
  by simp

text \<open>
  The claim as first stated fails for the analyzer: on a file that does not parse it
  exits with status 1, although it has a default configuration.
\<close>

theorem analyzer_exits_on_unparsable_config:
  "loadAnalyzerConfig (\<lambda>s. None) (File (sampleFile 0 ''{ broken'')) = Inl 1 \<and>
   loadAnalyzerConfig (\<lambda>s. None) (File (sampleFile 0 ''{ broken'')) \<noteq> Inr analyzerDefaultConfig"
  by (simp add: loadAnalyzerConfig_def existsSync_def readFileSync_def)

section \<open>Duplicate groups\<close>

lemma checkDuplicate_falsy:
  "\<not> truthy h \<Longrightarrow> checkDuplicate h p a = a"
  by (simp add: checkDuplicate_def)

lemma noteHashed_pair [simp]: "noteHashed a (p, h) = checkDuplicate (Some h) p a"
  by (simp add: noteHashed_def)

lemma analyze_is_fold:
  "analyzeDirectory sha256 dirPath rel n a = foldl noteHashed a (hashedFiles sha256 rel n)"
  "analyzeItems sha256 dirPath rel items a = foldl noteHashed a (hashedItems sha256 rel items)"
proof (induction sha256 dirPath rel n a and sha256 dirPath rel items a
    rule: analyzeDirectory_analyzeItems.induct)
  case (6 sha256 dirPath relativePath item n rest a)
  note IH = "6.IH"[OF refl refl]
  show ?case
  proof (cases n)
    case (File f)
    then have st: "statSync n = Some \<lparr> isDirectory = False, isFile = True, st_atime = atime f \<rparr>"
      by (simp add: statSync_def)
    have "analyzeItems sha256 dirPath relativePath rest
            (checkDuplicate (calculateFileHash sha256 n) (path_join relativePath item) a) =
          foldl noteHashed (checkDuplicate (calculateFileHash sha256 n) (path_join relativePath item) a)
            (hashedItems sha256 relativePath rest)"
      using IH(5)[OF st] by simp
    then show ?thesis using File st
      by (auto simp: Let_def checkDuplicate_falsy truthy_def
          calculateFileHash_def readFileSync_def split: option.splits)
  next
    case (Dir d kids)
    then have st: "statSync n = Some \<lparr> isDirectory = True, isFile = False, st_atime = dir_atime d \<rparr>"
      by (simp add: statSync_def)
    show ?thesis
    proof (cases "item = ''node_modules''")
      case True
      then show ?thesis using IH(2)[OF st] Dir st by (simp add: Let_def)
    next
      case False
      then show ?thesis using IH(3)[OF st] IH(4)[OF st] Dir st by (simp add: Let_def)
    qed
  next
    case (Special t)
    then have st: "statSync n = Some \<lparr> isDirectory = False, isFile = False, st_atime = t \<rparr>"
      by (simp add: statSync_def)
    then show ?thesis using IH(6)[OF st] Special by (simp add: Let_def)
  next
    case NoEntry
    then have st: "statSync n = None" by (simp add: statSync_def)
    then show ?thesis using IH(1)[OF st] NoEntry by (simp add: Let_def)
  qed
qed auto

lemma groupsBy_append: "groupsBy m (xs @ ys) = groupsBy m xs @ groupsBy m ys"
  by (simp add: groupsBy_def)

lemma groupsBy_cong:
  "\<forall>(p, h) \<in> set vs. m h = m' h \<Longrightarrow> groupsBy m vs = groupsBy m' vs"
  by (induction vs) (auto simp: groupsBy_def)

lemma groupsBy_single:
  "groupsBy m [(p, h)] = (if m h \<noteq> Some p then [\<lparr> hash = h, files = [the (m h), p] \<rparr>] else [])"
  by (simp add: groupsBy_def)

lemma map_of_swap_dom:
  "(q, k) \<in> set vs \<Longrightarrow> \<exists>v. map_of (map prod.swap vs) k = Some v"
proof -
  assume "(q, k) \<in> set vs"
  then have "k \<in> fst ` set (map prod.swap vs)" by force
  then show ?thesis by (metis domD dom_map_of_conv_image_fst)
qed

lemma map_of_swap_ran:
  "map_of (map prod.swap vs) k = Some v \<Longrightarrow> (v, k) \<in> set vs"
proof -
  assume "map_of (map prod.swap vs) k = Some v"
  then have "(k, v) \<in> set (map prod.swap vs)" by (rule map_of_SomeD)
  then show ?thesis by force
qed

lemma map_of_swap_snoc:
  "map_of (map prod.swap (vs @ [(p, h)])) k =
     (case map_of (map prod.swap vs) k of
        None \<Rightarrow> (if k = h then Some p else None)
      | Some v \<Rightarrow> Some v)"
  by (auto simp: map_add_def split: option.splits)

lemma fold_groups:
  assumes "distinct (map fst vs)" and "[] \<notin> fst ` set vs" and "[] \<notin> snd ` set vs"
  shows "fileHashes (foldl noteHashed emptyAnalysis vs) = map_of (map prod.swap vs) \<and>
         potentialDuplicates (foldl noteHashed emptyAnalysis vs) =
           groupsBy (map_of (map prod.swap vs)) vs"
  using assms
proof (induction vs rule: rev_induct)
  case Nil
  then show ?case by (simp add: emptyAnalysis_def groupsBy_def)
next
  case (snoc x vs)
  obtain p h where x: "x = (p, h)" by (cases x)
  define a where "a = foldl noteHashed emptyAnalysis vs"
  define M where "M = map_of (map prod.swap vs)"
  define M' where "M' = map_of (map prod.swap (vs @ [(p, h)]))"
  from snoc have IH: "fileHashes a = M" "potentialDuplicates a = groupsBy M vs"
    by (auto simp: a_def M_def)
  from snoc.prems x have pnew: "p \<notin> fst ` set vs" and pne: "p \<noteq> []" and hne: "h \<noteq> []"
    by auto
  have M'_eq: "M' k = (case M k of None \<Rightarrow> (if k = h then Some p else None) | Some v \<Rightarrow> Some v)" for k
    unfolding M'_def M_def by (rule map_of_swap_snoc)
  have M'_in: "M' k = M k" if "(q, k) \<in> set vs" for q k
    using map_of_swap_dom[OF that] by (auto simp: M'_eq M_def)
  have old: "groupsBy M' vs = groupsBy M vs"
    by (rule groupsBy_cong) (use M'_in in blast)
  have ran: "v \<in> fst ` set vs" if "M k = Some v" for k v
    using map_of_swap_ran[of vs k v] that by (force simp: M_def)
  have nogroup: "\<not> list_ex (\<lambda>dup. hash dup = h \<and> p0 \<in> set (files dup) \<and> p \<in> set (files dup))
                     (groupsBy M vs)" for p0
  proof
    assume "list_ex (\<lambda>dup. hash dup = h \<and> p0 \<in> set (files dup) \<and> p \<in> set (files dup)) (groupsBy M vs)"
    then obtain q k where qk: "(q, k) \<in> set vs" and "p = the (M k) \<or> p = q"
      by (auto simp: groupsBy_def list_ex_iff)
    moreover from map_of_swap_dom[OF qk] obtain v where "M k = Some v" by (auto simp: M_def)
    ultimately have "p \<in> fst ` set vs" using ran by force
    with pnew show False by contradiction
  qed
  have step: "foldl noteHashed emptyAnalysis (vs @ [(p, h)]) = checkDuplicate (Some h) p a"
    by (simp add: a_def)
  have goal_fold: "fileHashes (checkDuplicate (Some h) p a) = M' \<and>
        potentialDuplicates (checkDuplicate (Some h) p a) = groupsBy M' vs @ groupsBy M' [(p, h)]"
  proof (cases "M h")
    case None
    then have "M' h = Some p" by (simp add: M'_eq)
    moreover have "M(h \<mapsto> p) = M'" using None by (auto simp: fun_eq_iff M'_eq split: option.splits)
    ultimately show ?thesis using None IH hne
      by (simp add: checkDuplicate_def truthy_def groupsBy_single old)
  next
    case (Some p0)
    then have "p0 \<in> fst ` set vs" by (rule ran)
    moreover from snoc.prems(2) have "[] \<notin> fst ` set vs" by auto
    ultimately have p0: "p0 \<noteq> []" "p0 \<noteq> p" using pnew by blast+
    have "M' = M" using Some by (auto simp: fun_eq_iff M'_eq split: option.splits)
    then show ?thesis using Some IH hne p0 nogroup[of p0]
      by (simp add: checkDuplicate_def truthy_def groupsBy_single Let_def)
  qed
  show ?case
    unfolding x step using goal_fold by (simp only: groupsBy_append M'_def)
qed


lemma hashed_digests_nonempty:
  "[] \<notin> snd ` set (hashedFiles sha256 rel n)"
  "[] \<notin> snd ` set (hashedItems sha256 rel items)"
  by (induction sha256 rel n and sha256 rel items rule: hashedFiles_hashedItems.induct)
     (auto split: node.splits option.splits if_splits)

lemma hashedRoots_digests_nonempty: "[] \<notin> snd ` set (hashedRoots sha256 t dirs)"
proof (induction dirs)
  case Nil
  then show ?case by simp
next
  case (Cons dirPath dirs)
  have "[] \<notin> snd ` set (hashedFiles sha256 dirPath (t dirPath))"
    by (rule hashed_digests_nonempty(1))
  with Cons show ?case by (cases "existsSync (t dirPath)") (auto simp: image_Un)
qed

lemma analyzeRoots_is_fold:
  "analyzeRoots sha256 t dirs a = foldl noteHashed a (hashedRoots sha256 t dirs)"
  by (induction dirs arbitrary: a) (simp_all add: analyze_is_fold(1))

text \<open>
  Claim C6, as amended. In one pass of the analyzer over files with pairwise distinct,
  non-empty relative paths, the analyzer records for each digest the first path seen,
  and every later file with that digest adds exactly one group, made of the digest,
  the first path and the path of the file, in the order of the visit. Groups of one
  digest are not merged. Two files of identical content thus give one group holding
  both, whichever is visited first; \<open>k\<close> such files give \<open>k - 1\<close> groups.
\<close>

theorem duplicate_groups_are_pairs:
  assumes "distinct (map fst (hashedRoots sha256 t dirs))"
    and "[] \<notin> fst ` set (hashedRoots sha256 t dirs)"
  shows "fileHashes (analyzeRoots sha256 t dirs emptyAnalysis) =
           firstPaths (hashedRoots sha256 t dirs) \<and>
         potentialDuplicates (analyzeRoots sha256 t dirs emptyAnalysis) =
           groupsBy (firstPaths (hashedRoots sha256 t dirs)) (hashedRoots sha256 t dirs)"
  using fold_groups[OF assms hashedRoots_digests_nonempty]
  by (simp add: analyzeRoots_is_fold firstPaths_def)

text \<open>
  Two files of the same content, one in \<open>src\<close> and one in \<open>public\<close>, and one other
  file, under the analyzer's default directories.
\<close>

theorem duplicate_groups_are_pairs_witness:
  "distinct (map fst (hashedRoots (\<lambda>c. c)
      ((\<lambda>p. NoEntry)
         (''src'' := Dir sampleDir [(''a.txt'', File (sampleFile 0 ''same'')),
                                   (''c.txt'', File (sampleFile 0 ''other''))],
          ''public'' := Dir sampleDir [(''b.txt'', File (sampleFile 0 ''same''))]))
      (map snd (analyzer_directories analyzerDefaultConfig)))) \<and>
   [] \<notin> fst ` set (hashedRoots (\<lambda>c. c)
      ((\<lambda>p. NoEntry)
         (''src'' := Dir sampleDir [(''a.txt'', File (sampleFile 0 ''same'')),
                                   (''c.txt'', File (sampleFile 0 ''other''))],
          ''public'' := Dir sampleDir [(''b.txt'', File (sampleFile 0 ''same''))]))
      (map snd (analyzer_directories analyzerDefaultConfig))) \<and>
   potentialDuplicates (analyzeRoots (\<lambda>c. c)
      ((\<lambda>p. NoEntry)
         (''src'' := Dir sampleDir [(''a.txt'', File (sampleFile 0 ''same'')),
                                   (''c.txt'', File (sampleFile 0 ''other''))],
          ''public'' := Dir sampleDir [(''b.txt'', File (sampleFile 0 ''same''))]))
      (map snd (analyzer_directories analyzerDefaultConfig)) emptyAnalysis) =
     [\<lparr> hash = ''same'', files = [''src/a.txt'', ''public/b.txt''] \<rparr>]"
proof -
  let ?t = "(\<lambda>p. NoEntry)
         (''src'' := Dir sampleDir [(''a.txt'', File (sampleFile 0 ''same'')),
                                   (''c.txt'', File (sampleFile 0 ''other''))],
          ''public'' := Dir sampleDir [(''b.txt'', File (sampleFile 0 ''same''))])"
  let ?dirs = "map snd (analyzer_directories analyzerDefaultConfig)"
  have vs: "hashedRoots (\<lambda>c. c) ?t ?dirs =
     [(''src/a.txt'', ''same''), (''src/c.txt'', ''other''), (''public/b.txt'', ''same'')]"
    by (simp add: analyzerDefaultConfig_def existsSync_def calculateFileHash_def
        readFileSync_def path_join_def)
  have d: "distinct (map fst (hashedRoots (\<lambda>c. c) ?t ?dirs))"
    unfolding vs by simp
  have ne: "[] \<notin> fst ` set (hashedRoots (\<lambda>c. c) ?t ?dirs)"
    unfolding vs by simp
  from duplicate_groups_are_pairs[OF d ne]
  have "potentialDuplicates (analyzeRoots (\<lambda>c. c) ?t ?dirs emptyAnalysis) =
     [\<lparr> hash = ''same'', files = [''src/a.txt'', ''public/b.txt''] \<rparr>]"
    unfolding vs by (simp add: groupsBy_def firstPaths_def)
  with d ne show ?thesis by blast
qed

text \<open>
  The claim as first stated fails for three files of the same content: the report
  holds two groups for the one digest.
\<close>

theorem three_copies_give_two_groups:
  "potentialDuplicates (analyzeRoots (\<lambda>c. c)
      ((\<lambda>p. NoEntry)
         (''src'' := Dir sampleDir [(''a.txt'', File (sampleFile 0 ''same'')),
                                   (''b.txt'', File (sampleFile 0 ''same'')),
                                   (''c.txt'', File (sampleFile 0 ''same''))]))
      (map snd (analyzer_directories analyzerDefaultConfig)) emptyAnalysis) =
     [\<lparr> hash = ''same'', files = [''src/a.txt'', ''src/b.txt''] \<rparr>,
      \<lparr> hash = ''same'', files = [''src/a.txt'', ''src/c.txt''] \<rparr>]"
  by (simp add: analyzerDefaultConfig_def existsSync_def statSync_def calculateFileHash_def
      readFileSync_def path_join_def checkDuplicate_def truthy_def emptyAnalysis_def Let_def)

end
